theory Spec2Isabelle
  imports Main
begin

section \<open>Strings\<close>

text \<open>
  JavaScript strings are modelled as \<open>string\<close> (lists of characters) over ASCII text.
  \<open>toLowerCase\<close> and \<open>toUpperCase\<close> map the 26 Latin letters and leave every other
  character alone; \<open>trim\<close> strips the ASCII white space characters (tab, line feed,
  vertical tab, form feed, carriage return, space) from both ends.
\<close>

definition toLowerChar :: "char \<Rightarrow> char" where
  "toLowerChar c =
     (case map_of (zip ''ABCDEFGHIJKLMNOPQRSTUVWXYZ'' ''abcdefghijklmnopqrstuvwxyz'') c of
        Some l \<Rightarrow> l
      | None \<Rightarrow> c)"

definition toUpperChar :: "char \<Rightarrow> char" where
  "toUpperChar c =
     (case map_of (zip ''abcdefghijklmnopqrstuvwxyz'' ''ABCDEFGHIJKLMNOPQRSTUVWXYZ'') c of
        Some u \<Rightarrow> u
      | None \<Rightarrow> c)"

definition toLowerCase :: "string \<Rightarrow> string" where
  "toLowerCase s = map toLowerChar s"

definition toUpperCase :: "string \<Rightarrow> string" where
  "toUpperCase s = map toUpperChar s"

definition isWhiteSpace :: "char \<Rightarrow> bool" where
  "isWhiteSpace c = (c \<in> set [CHR 0x09, CHR 0x0A, CHR 0x0B, CHR 0x0C, CHR 0x0D, CHR '' ''])"

definition trim :: "string \<Rightarrow> string" where
  "trim s = rev (dropWhile isWhiteSpace (rev (dropWhile isWhiteSpace s)))"

text \<open>\<open>s.startsWith(k)\<close> and \<open>s.includes(k)\<close>: \<open>k\<close> occurs in \<open>s\<close> at some position.\<close>

definition startsWith :: "string \<Rightarrow> string \<Rightarrow> bool" where
  "startsWith s k = (take (length k) s = k)"

fun str_includes :: "string \<Rightarrow> string \<Rightarrow> bool" where
  "str_includes [] k = (k = [])"
| "str_includes (c # cs) k = (startsWith (c # cs) k \<or> str_includes cs k)"

text \<open>
  The words of the specification, "the text contains the alias, in any letter case":
  some contiguous piece of the text equals the alias once letter case is ignored.
\<close>

fun prefixesOf :: "string \<Rightarrow> string list" where
  "prefixesOf [] = [[]]"
| "prefixesOf (c # cs) = [] # map ((#) c) (prefixesOf cs)"

fun substringsOf :: "string \<Rightarrow> string list" where
  "substringsOf [] = [[]]"
| "substringsOf (c # cs) = prefixesOf (c # cs) @ substringsOf cs"

definition containsAnyCase :: "string \<Rightarrow> string \<Rightarrow> bool" where
  "containsAnyCase text a = list_ex (\<lambda>s. toLowerCase s = toLowerCase a) (substringsOf text)"

section \<open>Identity resolver (query-parser.js)\<close>

record user =
  jiraId :: string
  githubId :: string

text \<open>
  The object literal \<open>userMapping\<close>, as the list of its properties in definition order,
  which is the order in which \<open>for (const key in userMapping)\<close> visits them (none of
  the keys is an array index).
\<close>

definition userMapping :: "(string \<times> user) list" where
  "userMapping =
     [(''praveenk pandey'', \<lparr>jiraId = ''Praveenk Pandey'', githubId = ''PraveenPandey987''\<rparr>),
      (''praveenpandey987'', \<lparr>jiraId = ''Praveenk Pandey'', githubId = ''PraveenPandey987''\<rparr>),
      (''pp7007144435@gmail.com'',
         \<lparr>jiraId = ''pp7007144435@gmail.com'', githubId = ''PraveenPandey987''\<rparr>),
      (''mike'', \<lparr>jiraId = ''Mike Ross'', githubId = ''mikeross88''\<rparr>),
      (''sarah'', \<lparr>jiraId = ''Sarah Connor'', githubId = ''sarah-connor''\<rparr>),
      (''lisa'', \<lparr>jiraId = ''Lisa Smith'', githubId = ''lsmith''\<rparr>)]"

text \<open>The \<open>for ... in\<close> loop of \<open>findUserInQuery\<close>: the first key that occurs wins.\<close>

fun findUserLoop :: "(string \<times> user) list \<Rightarrow> string \<Rightarrow> user option" where
  "findUserLoop [] normalizedQuery = None"
| "findUserLoop ((key, u) # rest) normalizedQuery =
     (if str_includes normalizedQuery key then Some u else findUserLoop rest normalizedQuery)"

definition findUserInQuery :: "string \<Rightarrow> user option" where
  "findUserInQuery question = findUserLoop userMapping (toLowerCase question)"

section \<open>JSON values and objects\<close>

datatype json =
    JNull
  | JBool bool
  | JNum int
  | JStr string
  | JArr "json list"
  | JObj "(string \<times> json) list"

text \<open>
  An activity record (issue, commit, pull request, feed event) is an object: the list of
  its properties in insertion order. The result of a property read is a \<open>json option\<close>,
  where \<open>None\<close> is JavaScript's \<open>undefined\<close>.
\<close>

type_synonym obj = "(string \<times> json) list"

definition getProp :: "obj \<Rightarrow> string \<Rightarrow> json option" where
  "getProp ob name = map_of ob name"

text \<open>
  \<open>v?.name\<close>: \<open>undefined\<close> when \<open>v\<close> is \<open>undefined\<close> or \<open>null\<close>; a number, a boolean,
  a string or an array has none of the properties read in this program.
\<close>

fun optProp :: "json option \<Rightarrow> string \<Rightarrow> json option" where
  "optProp (Some (JObj ob)) name = map_of ob name"
| "optProp v name = None"

fun truthy :: "json option \<Rightarrow> bool" where
  "truthy None = False"
| "truthy (Some JNull) = False"
| "truthy (Some (JBool b)) = b"
| "truthy (Some (JNum n)) = (n \<noteq> 0)"
| "truthy (Some (JStr s)) = (s \<noteq> [])"
| "truthy (Some (JArr xs)) = True"
| "truthy (Some (JObj ob)) = True"

text \<open>
  \<open>{...ob, name: v}\<close>: a copy of \<open>ob\<close> in which \<open>name\<close> holds \<open>v\<close>; an existing property
  keeps its place, a new one goes last.
\<close>

definition setProp :: "string \<Rightarrow> json \<Rightarrow> obj \<Rightarrow> obj" where
  "setProp name v ob =
     (if name \<in> fst ` set ob
      then map (\<lambda>(k, x). if k = name then (k, v) else (k, x)) ob
      else ob @ [(name, v)])"

text \<open>\<open>s.split(sep)\<close> for a one-character separator.\<close>

fun splitOn :: "char \<Rightarrow> string \<Rightarrow> string list" where
  "splitOn sep [] = [[]]"
| "splitOn sep (c # cs) =
     (if c = sep then [] # splitOn sep cs
      else (case splitOn sep cs of [] \<Rightarrow> [[c]] | p # ps \<Rightarrow> (c # p) # ps))"

text \<open>A positive integer in a template literal: its decimal digits.\<close>

fun showNat :: "nat \<Rightarrow> string" where
  "showNat n =
     (if n < 10 then [''0123456789'' ! n]
      else showNat (n div 10) @ [''0123456789'' ! (n mod 10)])"

definition showInt :: "int \<Rightarrow> string" where
  "showInt i = (if i < 0 then CHR ''-'' # showNat (nat (- i)) else showNat (nat i))"

section \<open>Data cache (response-generator.js)\<close>

record cache_entry =
  data :: "obj list"
  timestamp :: int

type_synonym cache = "string \<rightharpoonup> cache_entry"

definition CACHE_TTL :: int where
  "CACHE_TTL = 5 * 60 * 1000"

text \<open>
  \<open>getCachedData\<close> reads the clock (\<open>now\<close>, in milliseconds) and the map; it returns the
  payload (\<open>None\<close> for the source's \<open>null\<close>) and the map it leaves behind.
\<close>

definition getCachedData :: "int \<Rightarrow> string \<Rightarrow> cache \<Rightarrow> obj list option \<times> cache" where
  "getCachedData now cacheKey dataCache =
     (case dataCache cacheKey of
        None \<Rightarrow> (None, dataCache)
      | Some cached \<Rightarrow>
          (let isExpired = (now - timestamp cached > CACHE_TTL) in
           if isExpired then (None, dataCache(cacheKey := None))
           else (Some (data cached), dataCache)))"

definition setCachedData :: "int \<Rightarrow> string \<Rightarrow> obj list \<Rightarrow> cache \<Rightarrow> cache" where
  "setCachedData now cacheKey d dataCache =
     dataCache(cacheKey \<mapsto> \<lparr>data = d, timestamp = now\<rparr>)"

section \<open>Code-host connector (github-client.js)\<close>

text \<open>
  The three REST requests the connector sends, as functions that give either the
  message of the error thrown (\<open>Inl\<close>) or the response data (\<open>Inr\<close>). A failure to
  obtain the authenticated client is a failure of the request.
\<close>

record github =
  GET_user_events :: "string \<Rightarrow> string + obj list"
  GET_repo_commits :: "string \<Rightarrow> string \<Rightarrow> string \<Rightarrow> string + obj list"
  GET_repo_pulls :: "string \<Rightarrow> string \<Rightarrow> string + obj list"

definition getRecentCommits ::
  "github \<Rightarrow> string \<Rightarrow> string \<Rightarrow> string \<Rightarrow> string + obj list" where
  "getRecentCommits gh username owner repo = GET_repo_commits gh owner repo username"

definition getActivePullRequests ::
  "github \<Rightarrow> string \<Rightarrow> string \<Rightarrow> string \<Rightarrow> string + obj list" where
  "getActivePullRequests gh username owner repo =
     (case GET_repo_pulls gh owner repo of
        Inl error \<Rightarrow> Inl error
      | Inr prs \<Rightarrow>
          Inr (filter (\<lambda>pr. optProp (getProp pr ''user'') ''login'' = Some (JStr username)) prs))"

text \<open>
  \<open>[...new Set(xs)]\<close>: the first occurrence of every value, in order. Strings, numbers
  and booleans are compared by value, objects and arrays by identity, and the values
  parsed from a response are all distinct objects.
\<close>

fun sameValueZero :: "json \<Rightarrow> json \<Rightarrow> bool" where
  "sameValueZero (JArr xs) y = False"
| "sameValueZero (JObj ob) y = False"
| "sameValueZero x y = (x = y)"

definition newSet :: "json list \<Rightarrow> json list" where
  "newSet xs = foldl (\<lambda>acc x. if list_ex (sameValueZero x) acc then acc else acc @ [x]) [] xs"

definition getContributionRepos :: "github \<Rightarrow> string \<Rightarrow> string + json list" where
  "getContributionRepos gh username =
     (case GET_user_events gh username of
        Inl error \<Rightarrow> Inl error
      | Inr events \<Rightarrow>
          Inr (newSet (map the (filter truthy
                 (map (\<lambda>e. optProp (getProp e ''repo'') ''name'') events)))))"

text \<open>
  \<open>const [owner, repo] = fullName.split('/'); if (!owner || !repo) continue;\<close>
  gives the two names, or \<open>None\<close> when the loop moves on to the next repository.
\<close>

definition ownerAndRepo :: "string \<Rightarrow> (string \<times> string) option" where
  "ownerAndRepo fullName =
     (case splitOn CHR ''/'' fullName of
        owner # repo # rest \<Rightarrow> if owner = [] \<or> repo = [] then None else Some (owner, repo)
      | _ \<Rightarrow> None)"

text \<open>
  The loop of \<open>searchRecentCommitsByUser\<close>, with \<open>allCommits\<close> as accumulator. The body
  is inside \<open>try\<close>: an error of the fetch, and the \<open>TypeError\<close> of \<open>split\<close> on a name
  that is not a string, are logged and the loop goes on.
\<close>

fun commitsLoop :: "github \<Rightarrow> string \<Rightarrow> json list \<Rightarrow> obj list \<Rightarrow> obj list" where
  "commitsLoop gh username [] allCommits = allCommits"
| "commitsLoop gh username (JStr fullName # rest) allCommits =
     (case ownerAndRepo fullName of
        None \<Rightarrow> commitsLoop gh username rest allCommits
      | Some (owner, repo) \<Rightarrow>
          (case getRecentCommits gh username owner repo of
             Inl error \<Rightarrow> commitsLoop gh username rest allCommits
           | Inr commits \<Rightarrow>
               commitsLoop gh username rest
                 (allCommits @ map (setProp ''repo'' (JStr fullName)) commits)))"
| "commitsLoop gh username (other # rest) allCommits = commitsLoop gh username rest allCommits"

definition searchRecentCommitsByUser :: "github \<Rightarrow> string \<Rightarrow> string + obj list" where
  "searchRecentCommitsByUser gh username =
     (case getContributionRepos gh username of
        Inl error \<Rightarrow> Inl error
      | Inr repoFullNames \<Rightarrow> Inr (commitsLoop gh username repoFullNames []))"

fun prsLoop :: "github \<Rightarrow> string \<Rightarrow> json list \<Rightarrow> obj list \<Rightarrow> obj list" where
  "prsLoop gh username [] allPRs = allPRs"
| "prsLoop gh username (JStr fullName # rest) allPRs =
     (case ownerAndRepo fullName of
        None \<Rightarrow> prsLoop gh username rest allPRs
      | Some (owner, repo) \<Rightarrow>
          (case getActivePullRequests gh username owner repo of
             Inl error \<Rightarrow> prsLoop gh username rest allPRs
           | Inr prs \<Rightarrow>
               prsLoop gh username rest (allPRs @ map (setProp ''repo'' (JStr fullName)) prs)))"
| "prsLoop gh username (other # rest) allPRs = prsLoop gh username rest allPRs"

definition searchActivePRsByUser :: "github \<Rightarrow> string \<Rightarrow> string + obj list" where
  "searchActivePRsByUser gh username =
     (case getContributionRepos gh username of
        Inl error \<Rightarrow> Inl error
      | Inr repoFullNames \<Rightarrow> Inr (prsLoop gh username repoFullNames []))"

section \<open>Aggregator (response-generator.js)\<close>

subsection \<open>Collaborators, calls and state\<close>

text \<open>
  The two template literals handed to \<open>genAI.models.generateContent\<close>, each as the values
  interpolated into its fixed text: the question for the intent prompt; the question,
  the user and the data context for the final prompt.
\<close>

datatype prompt =
    IntentPrompt string
  | SummaryPrompt string user string

datatype call =
    GenerateContent prompt
  | SearchActiveIssues string
  | SearchActivePRs string
  | SearchRecentCommits string

text \<open>
  The imported functions and the built-ins whose results the module does not compute.
  A call that is awaited is made at a time of the clock and gives either the message of
  the error thrown (\<open>Inl\<close>) or the value, and the milliseconds it took. Every value
  thrown is an \<open>Error\<close> with a string \<open>message\<close>. \<open>new_Date\<close> is the time value of
  \<open>new Date(v)\<close>, \<open>None\<close> for an invalid date.
\<close>

record collaborators =
  genAI_generateContent :: "int \<Rightarrow> prompt \<Rightarrow> (string + string) \<times> nat"
  jira_searchActiveIssuesByUser :: "int \<Rightarrow> string \<Rightarrow> (string + obj list) \<times> nat"
  github_searchActivePRsByUser :: "int \<Rightarrow> string \<Rightarrow> (string + obj list) \<times> nat"
  github_searchRecentCommitsByUser :: "int \<Rightarrow> string \<Rightarrow> (string + obj list) \<times> nat"
  JSON_stringify :: "obj list \<Rightarrow> string"
  new_Date :: "json option \<Rightarrow> int option"

text \<open>The module's state: the map \<open>dataCache\<close> and the clock read by \<open>Date.now()\<close>.\<close>

record world =
  dataCache :: cache
  clock :: int

subsection \<open>Relative time\<close>

definition plural :: "int \<Rightarrow> string" where
  "plural n = (if n > 1 then ''s'' else [])"

definition getRelativeTime :: "collaborators \<Rightarrow> int \<Rightarrow> json option \<Rightarrow> string" where
  "getRelativeTime env now dateString =
     (case new_Date env dateString of
        None \<Rightarrow> ''just now''
      | Some date \<Rightarrow>
          (let diffMs = now - date;
               diffDays = diffMs div (1000 * 60 * 60 * 24);
               diffHours = diffMs div (1000 * 60 * 60);
               diffMinutes = diffMs div (1000 * 60)
           in if diffDays > 0 then showInt diffDays @ '' day'' @ plural diffDays @ '' ago''
              else if diffHours > 0 then showInt diffHours @ '' hour'' @ plural diffHours @ '' ago''
              else if diffMinutes > 0
                then showInt diffMinutes @ '' minute'' @ plural diffMinutes @ '' ago''
              else ''just now''))"

subsection \<open>Cached fetches\<close>

text \<open>
  \<open>fetchJiraData\<close>, \<open>fetchCommitsData\<close> and \<open>fetchPRsData\<close> are the same code up to the
  prefix of the cache key and the connector called on a miss. A fetch returns what the
  source returns or throws, the state it leaves and the upstream calls it made.
\<close>

definition fetchWithCache ::
  "string \<Rightarrow> (int \<Rightarrow> string \<Rightarrow> (string + obj list) \<times> nat) \<Rightarrow> (string \<Rightarrow> call) \<Rightarrow>
   world \<Rightarrow> string \<Rightarrow> (string + obj list) \<times> world \<times> call list" where
  "fetchWithCache keyPrefix search mkCall w ident =
     (let cacheKey = keyPrefix @ ident in
      case getCachedData (clock w) cacheKey (dataCache w) of
        (Some cachedData, c) \<Rightarrow> (Inr cachedData, \<lparr>dataCache = c, clock = clock w\<rparr>, [])
      | (None, c) \<Rightarrow>
          (case search (clock w) ident of
             (Inl error, latency) \<Rightarrow>
               (Inl error, \<lparr>dataCache = c, clock = clock w + int latency\<rparr>, [mkCall ident])
           | (Inr d, latency) \<Rightarrow>
               (Inr d,
                \<lparr>dataCache = setCachedData (clock w + int latency) cacheKey d c,
                 clock = clock w + int latency\<rparr>,
                [mkCall ident])))"

definition fetchJiraData ::
  "collaborators \<Rightarrow> world \<Rightarrow> string \<Rightarrow> (string + obj list) \<times> world \<times> call list" where
  "fetchJiraData env w jiraIdent =
     fetchWithCache ''jira_'' (jira_searchActiveIssuesByUser env) SearchActiveIssues w jiraIdent"

definition fetchCommitsData ::
  "collaborators \<Rightarrow> world \<Rightarrow> string \<Rightarrow> (string + obj list) \<times> world \<times> call list" where
  "fetchCommitsData env w githubIdent =
     fetchWithCache ''commits_'' (github_searchRecentCommitsByUser env) SearchRecentCommits
       w githubIdent"

definition fetchPRsData ::
  "collaborators \<Rightarrow> world \<Rightarrow> string \<Rightarrow> (string + obj list) \<times> world \<times> call list" where
  "fetchPRsData env w githubIdent =
     fetchWithCache ''prs_'' (github_searchActivePRsByUser env) SearchActivePRs w githubIdent"

subsection \<open>Intent classification\<close>

definition classifyIntent ::
  "collaborators \<Rightarrow> world \<Rightarrow> string \<Rightarrow> string \<times> world \<times> call list" where
  "classifyIntent env w question =
     (case genAI_generateContent env (clock w) (IntentPrompt question) of
        (Inl error, latency) \<Rightarrow>
          (''FULL_SUMMARY'', w\<lparr>clock := clock w + int latency\<rparr>,
           [GenerateContent (IntentPrompt question)])
      | (Inr text, latency) \<Rightarrow>
          (let intent = toUpperCase (trim text) in
           (if intent \<in> set [''JIRA'', ''COMMITS'', ''PRS'', ''FULL_SUMMARY'']
            then intent else ''FULL_SUMMARY'',
            w\<lparr>clock := clock w + int latency\<rparr>,
            [GenerateContent (IntentPrompt question)])))"

subsection \<open>Step 3: selective fetch\<close>

text \<open>
  \<open>Promise.all\<close> of the three fetches: each runs up to its first \<open>await\<close> when it is
  called, so all three read the cache at the same time \<open>t\<close>; each one that missed
  writes the cache when its own call returns. The three cache keys differ, so the order
  of the writes is immaterial. The state returned is the one reached when all three
  have settled. When several fetches fail, the error thrown is that of the one that
  failed first (of the earlier one in the array when they fail at the same time).
\<close>

definition firstToReject :: "int \<times> string \<Rightarrow> int \<times> string \<Rightarrow> int \<times> string" where
  "firstToReject a b = (if fst b < fst a then b else a)"

definition promiseAll ::
  "(string + obj list) \<times> int \<Rightarrow> (string + obj list) \<times> int \<Rightarrow> (string + obj list) \<times> int \<Rightarrow>
   string + (obj list \<times> obj list \<times> obj list)" where
  "promiseAll p1 p2 p3 =
     (case (p1, p2, p3) of
        ((Inr a, t1), (Inr b, t2), (Inr c, t3)) \<Rightarrow> Inr (a, b, c)
      | ((Inl e1, t1), (Inr b, t2), (Inr c, t3)) \<Rightarrow> Inl e1
      | ((Inr a, t1), (Inl e2, t2), (Inr c, t3)) \<Rightarrow> Inl e2
      | ((Inr a, t1), (Inr b, t2), (Inl e3, t3)) \<Rightarrow> Inl e3
      | ((Inl e1, t1), (Inl e2, t2), (Inr c, t3)) \<Rightarrow> Inl (snd (firstToReject (t1, e1) (t2, e2)))
      | ((Inl e1, t1), (Inr b, t2), (Inl e3, t3)) \<Rightarrow> Inl (snd (firstToReject (t1, e1) (t3, e3)))
      | ((Inr a, t1), (Inl e2, t2), (Inl e3, t3)) \<Rightarrow> Inl (snd (firstToReject (t2, e2) (t3, e3)))
      | ((Inl e1, t1), (Inl e2, t2), (Inl e3, t3)) \<Rightarrow>
          Inl (snd (firstToReject (firstToReject (t1, e1) (t2, e2)) (t3, e3))))"

definition fetchAll ::
  "collaborators \<Rightarrow> world \<Rightarrow> user \<Rightarrow>
   (string + (obj list \<times> obj list \<times> obj list)) \<times> world \<times> call list" where
  "fetchAll env w u =
     (let t = clock w in
      case fetchJiraData env w (jiraId u) of (r1, w1, c1) \<Rightarrow>
     (case fetchPRsData env (w1\<lparr>clock := t\<rparr>) (githubId u) of (r2, w2, c2) \<Rightarrow>
     (case fetchCommitsData env (w2\<lparr>clock := t\<rparr>) (githubId u) of (r3, w3, c3) \<Rightarrow>
        (promiseAll (r1, clock w1) (r2, clock w2) (r3, clock w3),
         w3\<lparr>clock := max (clock w1) (max (clock w2) (clock w3))\<rparr>,
         c1 @ c2 @ c3))))"

text \<open>
  The result is the triple \<open>(jiraIssues, githubPRs, githubCommits)\<close>; a kind that is not
  fetched keeps its initial value \<open>[]\<close>.
\<close>

definition fetchByIntent ::
  "collaborators \<Rightarrow> world \<Rightarrow> user \<Rightarrow> string \<Rightarrow>
   (string + (obj list \<times> obj list \<times> obj list)) \<times> world \<times> call list" where
  "fetchByIntent env w u intent =
     (if intent = ''JIRA'' then
        (case fetchJiraData env w (jiraId u) of
           (Inl error, w', cs) \<Rightarrow> (Inl error, w', cs)
         | (Inr jiraIssues, w', cs) \<Rightarrow> (Inr (jiraIssues, [], []), w', cs))
      else if intent = ''COMMITS'' then
        (case fetchCommitsData env w (githubId u) of
           (Inl error, w', cs) \<Rightarrow> (Inl error, w', cs)
         | (Inr githubCommits, w', cs) \<Rightarrow> (Inr ([], [], githubCommits), w', cs))
      else if intent = ''PRS'' then
        (case fetchPRsData env w (githubId u) of
           (Inl error, w', cs) \<Rightarrow> (Inl error, w', cs)
         | (Inr githubPRs, w', cs) \<Rightarrow> (Inr ([], githubPRs, []), w', cs))
      else fetchAll env w u)"

subsection \<open>Steps 4 to 8: the answer from the fetched data\<close>

definition noActivityMessage :: "user \<Rightarrow> string" where
  "noActivityMessage u =
     ''I found '' @ jiraId u @ '' (JIRA) / '' @ githubId u @
     '' (GitHub), but they have no recent activity based on your query.''"

definition addIssueTime :: "collaborators \<Rightarrow> int \<Rightarrow> obj \<Rightarrow> obj" where
  "addIssueTime env now issue =
     setProp ''relativeTime'' (JStr (getRelativeTime env now (getProp issue ''lastUpdated'')))
       issue"

definition addCommitTime :: "collaborators \<Rightarrow> int \<Rightarrow> obj \<Rightarrow> obj" where
  "addCommitTime env now commit =
     (let date = optProp (optProp (getProp commit ''commit'') ''author'') ''date'' in
      setProp ''relativeTime''
        (JStr (if truthy date then getRelativeTime env now date else ''unknown'')) commit)"

text \<open>Step 5. Nothing is done to \<open>githubPRs\<close>.\<close>

definition addRelativeTimes ::
  "collaborators \<Rightarrow> int \<Rightarrow> obj list \<times> obj list \<times> obj list \<Rightarrow>
   obj list \<times> obj list \<times> obj list" where
  "addRelativeTimes env now d =
     (case d of (jiraIssues, githubPRs, githubCommits) \<Rightarrow>
        (if jiraIssues \<noteq> [] then map (addIssueTime env now) jiraIssues else jiraIssues,
         githubPRs,
         if githubCommits \<noteq> [] then map (addCommitTime env now) githubCommits
         else githubCommits))"

text \<open>Step 7: the three optional sections and the white space of the template around them.\<close>

definition dataSection :: "(obj list \<Rightarrow> string) \<Rightarrow> string \<Rightarrow> obj list \<Rightarrow> string" where
  "dataSection stringify header records =
     (if records \<noteq> [] then header @ [CHR 0x0A] @ stringify records @ [CHR 0x0A] else [])"

definition dataContext ::
  "(obj list \<Rightarrow> string) \<Rightarrow> obj list \<times> obj list \<times> obj list \<Rightarrow> string" where
  "dataContext stringify d =
     (case d of (jiraIssues, githubPRs, githubCommits) \<Rightarrow>
        CHR 0x0A # ''      '' @
        dataSection stringify ''--- JIRA DATA (Active Issues) ---'' jiraIssues @
        CHR 0x0A # ''      '' @
        dataSection stringify ''--- GITHUB DATA (Active Pull Requests) ---'' githubPRs @
        CHR 0x0A # ''      '' @
        dataSection stringify ''--- GITHUB DATA (Recent Commits) ---'' githubCommits @
        CHR 0x0A # ''    '')"

definition answerFromData ::
  "collaborators \<Rightarrow> world \<Rightarrow> string \<Rightarrow> user \<Rightarrow> obj list \<times> obj list \<times> obj list \<Rightarrow>
   (string + string) \<times> world \<times> call list" where
  "answerFromData env w question u d =
     (case d of (jiraIssues, githubPRs, githubCommits) \<Rightarrow>
        if jiraIssues = [] \<and> githubPRs = [] \<and> githubCommits = []
        then (Inr (noActivityMessage u), w, [])
        else
          (let p = SummaryPrompt question u
                     (dataContext (JSON_stringify env) (addRelativeTimes env (clock w) d))
           in case genAI_generateContent env (clock w) p of
                (response, latency) \<Rightarrow>
                  (response, w\<lparr>clock := clock w + int latency\<rparr>, [GenerateContent p])))"

subsection \<open>handleAIQuery\<close>

text \<open>The body of \<open>try\<close>: \<open>Inl\<close> is the message of an error thrown in it.\<close>

definition tryBlock ::
  "collaborators \<Rightarrow> world \<Rightarrow> string \<Rightarrow> user \<Rightarrow> (string + string) \<times> world \<times> call list" where
  "tryBlock env w question u =
     (case classifyIntent env w question of
        (intent, w1, c1) \<Rightarrow>
          (case fetchByIntent env w1 u intent of
             (Inl error, w2, c2) \<Rightarrow> (Inl error, w2, c1 @ c2)
           | (Inr d, w2, c2) \<Rightarrow>
               (case answerFromData env w2 question u d of
                  (r, w3, c3) \<Rightarrow> (r, w3, c1 @ c2 @ c3))))"

text \<open>The \<open>catch\<close> block.\<close>

definition catchBlock :: "string \<Rightarrow> string" where
  "catchBlock message =
     (if str_includes message ''404'' then
        ''Sorry, I couldn't find one or more repositories. The user might not have access to some repos.''
      else if str_includes message ''401'' \<or> str_includes message ''403'' then
        ''Authentication error: Please check your API credentials in the .env file.''
      else if str_includes message ''rate limit'' then
        ''API rate limit exceeded. Please try again in a few minutes.''
      else ''An error occurred while fetching data: '' @ message)"

definition userNotFoundMessage :: string where
  "userNotFoundMessage =
     ''I'm sorry, I couldn't find a known user (from JIRA or GitHub) in your query. Please include a name I recognize.''"

definition handleAIQuery ::
  "collaborators \<Rightarrow> world \<Rightarrow> string \<Rightarrow> string \<times> world \<times> call list" where
  "handleAIQuery env w question =
     (case findUserInQuery question of
        None \<Rightarrow> (userNotFoundMessage, w, [])
      | Some u \<Rightarrow>
          (case tryBlock env w question u of
             (Inr answer, w', cs) \<Rightarrow> (answer, w', cs)
           | (Inl message, w', cs) \<Rightarrow> (catchBlock message, w', cs)))"

section \<open>Example collaborators\<close>

text \<open>
  Collaborators for concrete runs: the model answers every intent prompt with \<open>label\<close>
  and every final prompt with a fixed text; each connector gives a fixed result. Dates
  are given as numbers of milliseconds, and a record is printed as its property names.
\<close>

definition exampleStringify :: "obj list \<Rightarrow> string" where
  "exampleStringify records =
     concat (map (\<lambda>ob. ''{'' @ concat (map (\<lambda>(k, v). k @ '';'') ob) @ ''}'') records)"

definition exampleDate :: "json option \<Rightarrow> int option" where
  "exampleDate v = (case v of Some (JNum n) \<Rightarrow> Some n | _ \<Rightarrow> None)"

definition exampleEnv ::
  "string + string \<Rightarrow> string + obj list \<Rightarrow> string + obj list \<Rightarrow> string + obj list \<Rightarrow>
   collaborators" where
  "exampleEnv label issues prs commits =
     \<lparr>genAI_generateContent =
        (\<lambda>t p. case p of
                  IntentPrompt q \<Rightarrow> (label, 120)
                | SummaryPrompt q u ctx \<Rightarrow> (Inr ''summary'', 900)),
      jira_searchActiveIssuesByUser = (\<lambda>t ident. (issues, 300)),
      github_searchActivePRsByUser = (\<lambda>t ident. (prs, 400)),
      github_searchRecentCommitsByUser = (\<lambda>t ident. (commits, 500)),
      JSON_stringify = exampleStringify,
      new_Date = exampleDate\<rparr>"

definition emptyWorld :: world where
  "emptyWorld = \<lparr>dataCache = Map.empty, clock = 1000000\<rparr>"

definition mike :: user where
  "mike = \<lparr>jiraId = ''Mike Ross'', githubId = ''mikeross88''\<rparr>"

definition sarah :: user where
  "sarah = \<lparr>jiraId = ''Sarah Connor'', githubId = ''sarah-connor''\<rparr>"

definition exampleIssue :: obj where
  "exampleIssue = [(''key'', JStr ''TS-102''), (''lastUpdated'', JNum 400000)]"

definition examplePR :: obj where
  "examplePR =
     [(''title'', JStr ''Add login''), (''created_at'', JNum 400000),
      (''user'', JObj [(''login'', JStr ''mikeross88'')])]"

definition exampleCommit :: obj where
  "exampleCommit =
     [(''sha'', JStr ''abc''),
      (''commit'', JObj [(''author'', JObj [(''date'', JNum 400000)])])]"

definition warmWorld :: world where
  "warmWorld =
     \<lparr>dataCache = [''jira_Mike Ross'' \<mapsto> \<lparr>data = [exampleIssue], timestamp = 800000\<rparr>],
      clock = 1000000\<rparr>"

section \<open>Vocabulary of the properties\<close>

text \<open>
  A fan-out over the discovered repositories \<open>names\<close> in which exactly the fetch for
  the repository at position \<open>i\<close> fails: every name splits into owner and repository,
  the fetch for position \<open>i\<close> throws, and the fetch for every other name returns the
  records \<open>ok name\<close>.
\<close>

definition oneRepoFails ::
  "(string \<Rightarrow> string \<Rightarrow> string + obj list) \<Rightarrow> string list \<Rightarrow> nat \<Rightarrow> (string \<Rightarrow> obj list) \<Rightarrow>
   bool" where
  "oneRepoFails fetch names i ok =
     (i < length names \<and>
      list_all
        (\<lambda>j. case ownerAndRepo (names ! j) of
               None \<Rightarrow> False
             | Some (owner, repo) \<Rightarrow>
                 if j = i then isl (fetch owner repo)
                 else fetch owner repo = Inr (ok (names ! j)))
        [0..<length names])"

text \<open>The records of the repositories \<open>names\<close>, each with its repository name added.\<close>

definition taggedRecords :: "string list \<Rightarrow> (string \<Rightarrow> obj list) \<Rightarrow> obj list" where
  "taggedRecords names ok =
     concat (map (\<lambda>fullName. map (setProp ''repo'' (JStr fullName)) (ok fullName)) names)"

text \<open>
  The three parts of what a step of the query returns: its result, the state it leaves
  and the calls it made to the collaborators.
\<close>

definition resultOf :: "'a \<times> world \<times> call list \<Rightarrow> 'a" where
  "resultOf r = fst r"

definition worldOf :: "'a \<times> world \<times> call list \<Rightarrow> world" where
  "worldOf r = fst (snd r)"

definition callsOf :: "'a \<times> world \<times> call list \<Rightarrow> call list" where
  "callsOf r = snd (snd r)"

text \<open>Step 3 of a query, as it runs after the classification of the question.\<close>

definition fetchStep ::
  "collaborators \<Rightarrow> world \<Rightarrow> string \<Rightarrow> user \<Rightarrow>
   (string + (obj list \<times> obj list \<times> obj list)) \<times> world \<times> call list" where
  "fetchStep env w question u =
     fetchByIntent env (worldOf (classifyIntent env w question)) u
       (resultOf (classifyIntent env w question))"

text \<open>A call to the model, as opposed to a call to one of the three connectors.\<close>

fun isGenerateContent :: "call \<Rightarrow> bool" where
  "isGenerateContent (GenerateContent p) = True"
| "isGenerateContent c = False"

fun isSummaryCall :: "call \<Rightarrow> bool" where
  "isSummaryCall (GenerateContent (SummaryPrompt q u ctx)) = True"
| "isSummaryCall c = False"

definition connectorCalls :: "call list \<Rightarrow> call list" where
  "connectorCalls cs = filter (\<lambda>c. \<not> isGenerateContent c) cs"

text \<open>The cache keys of the three kinds of data of a user.\<close>

definition cacheKeys :: "user \<Rightarrow> string list" where
  "cacheKeys u = [''jira_'' @ jiraId u, ''prs_'' @ githubId u, ''commits_'' @ githubId u]"

text \<open>The cache keys that step 3 reads for an intent.\<close>

definition neededKeys :: "string \<Rightarrow> user \<Rightarrow> string list" where
  "neededKeys intent u =
     (if intent = ''JIRA'' then [''jira_'' @ jiraId u]
      else if intent = ''COMMITS'' then [''commits_'' @ githubId u]
      else if intent = ''PRS'' then [''prs_'' @ githubId u]
      else cacheKeys u)"

text \<open>No entry under one of the keys is older than the TTL at time \<open>now\<close>.\<close>

definition freshAt :: "int \<Rightarrow> cache \<Rightarrow> string list \<Rightarrow> bool" where
  "freshAt now c keys =
     list_all (\<lambda>k. case c k of None \<Rightarrow> True | Some e \<Rightarrow> now - timestamp e \<le> CACHE_TTL) keys"

text \<open>The cache holds the payload \<open>d\<close> under the key \<open>k\<close>.\<close>

definition cacheHas :: "cache \<Rightarrow> string \<Rightarrow> obj list \<Rightarrow> bool" where
  "cacheHas c k d = (case c k of None \<Rightarrow> False | Some e \<Rightarrow> data e = d)"

text \<open>The cache holds the data \<open>d\<close> of step 3 under the keys of the intent.\<close>

definition cacheHolds :: "string \<Rightarrow> user \<Rightarrow> obj list \<times> obj list \<times> obj list \<Rightarrow> cache \<Rightarrow> bool" where
  "cacheHolds intent u d c =
     (case d of (jiraIssues, githubPRs, githubCommits) \<Rightarrow>
        if intent = ''JIRA'' then
          cacheHas c (''jira_'' @ jiraId u) jiraIssues \<and> githubPRs = [] \<and> githubCommits = []
        else if intent = ''COMMITS'' then
          cacheHas c (''commits_'' @ githubId u) githubCommits \<and> jiraIssues = [] \<and> githubPRs = []
        else if intent = ''PRS'' then
          cacheHas c (''prs_'' @ githubId u) githubPRs \<and> jiraIssues = [] \<and> githubCommits = []
        else
          cacheHas c (''jira_'' @ jiraId u) jiraIssues \<and>
          cacheHas c (''prs_'' @ githubId u) githubPRs \<and>
          cacheHas c (''commits_'' @ githubId u) githubCommits)"

definition exampleGithub :: github where
  "exampleGithub =
     \<lparr>GET_user_events = (\<lambda>username.
        Inr [[(''repo'', JObj [(''name'', JStr ''acme/api'')])],
             [(''repo'', JObj [(''name'', JStr ''acme/gone'')])],
             [(''repo'', JObj [(''name'', JStr ''acme/api'')])],
             [(''repo'', JObj [(''name'', JStr ''acme/web'')])]]),
      GET_repo_commits = (\<lambda>owner repo author.
        if repo = ''gone'' then Inl ''Not Found'' else Inr [[(''sha'', JStr repo)]]),
      GET_repo_pulls = (\<lambda>owner repo.
        if repo = ''gone'' then Inl ''Not Found''
        else Inr [[(''title'', JStr repo), (''user'', JObj [(''login'', JStr ''lsmith'')])],
                  [(''title'', JStr ''other''), (''user'', JObj [(''login'', JStr ''bob'')])]])\<rparr>"

definition exampleRepoCommits :: "string \<Rightarrow> obj list" where
  "exampleRepoCommits fullName = [[(''sha'', JStr (drop 5 fullName))]]"

definition exampleRepoPRs :: "string \<Rightarrow> obj list" where
  "exampleRepoPRs fullName =
     [[(''title'', JStr (drop 5 fullName)), (''user'', JObj [(''login'', JStr ''lsmith'')])]]"

section \<open>Properties of the string operations\<close>

lemma str_includes_iff: "str_includes s k \<longleftrightarrow> (\<exists>ps ss. s = ps @ k @ ss)"
proof (induction s)
  case Nil
  then show ?case by auto
next
  case (Cons c cs)
  have "startsWith (c # cs) k \<longleftrightarrow> (\<exists>ss. c # cs = k @ ss)"
    unfolding startsWith_def
    by (metis append_eq_conv_conj)
  moreover have "(\<exists>ps ss. c # cs = ps @ k @ ss) \<longleftrightarrow>
      (\<exists>ss. c # cs = k @ ss) \<or> (\<exists>ps ss. cs = ps @ k @ ss)"
  proof
    assume "\<exists>ps ss. c # cs = ps @ k @ ss"
    then obtain ps ss where eq: "c # cs = ps @ k @ ss" by blast
    show "(\<exists>ss. c # cs = k @ ss) \<or> (\<exists>ps ss. cs = ps @ k @ ss)"
    proof (cases ps)
      case Nil
      with eq show ?thesis by auto
    next
      case (Cons p ps')
      with eq have "cs = ps' @ k @ ss" by simp
      then show ?thesis by blast
    qed
  next
    assume "(\<exists>ss. c # cs = k @ ss) \<or> (\<exists>ps ss. cs = ps @ k @ ss)"
    then show "\<exists>ps ss. c # cs = ps @ k @ ss"
    proof
      assume "\<exists>ss. c # cs = k @ ss"
      then obtain ss where "c # cs = [] @ k @ ss" by auto
      then show ?thesis by blast
    next
      assume "\<exists>ps ss. cs = ps @ k @ ss"
      then obtain ps ss where "cs = ps @ k @ ss" by blast
      then have "c # cs = (c # ps) @ k @ ss" by simp
      then show ?thesis by blast
    qed
  qed
  ultimately show ?case using Cons.IH by simp
qed

lemma set_prefixesOf: "set (prefixesOf s) = {p. \<exists>ss. s = p @ ss}"
proof (induction s)
  case Nil
  then show ?case by auto
next
  case (Cons c cs)
  show ?case
  proof (rule set_eqI)
    fix p
    show "p \<in> set (prefixesOf (c # cs)) \<longleftrightarrow> p \<in> {p. \<exists>ss. c # cs = p @ ss}"
      using Cons.IH by (cases p) auto
  qed
qed

lemma set_substringsOf: "set (substringsOf s) = {m. \<exists>ps ss. s = ps @ m @ ss}"
proof (induction s)
  case Nil
  then show ?case by auto
next
  case (Cons c cs)
  have "{m. \<exists>ps ss. c # cs = ps @ m @ ss} =
        {p. \<exists>ss. c # cs = p @ ss} \<union> {m. \<exists>ps ss. cs = ps @ m @ ss}" (is "?L = ?R")
  proof (rule set_eqI)
    fix m
    show "m \<in> ?L \<longleftrightarrow> m \<in> ?R"
    proof
      assume "m \<in> ?L"
      then obtain ps ss where eq: "c # cs = ps @ m @ ss" by blast
      show "m \<in> ?R"
      proof (cases ps)
        case Nil
        with eq show ?thesis by auto
      next
        case (Cons p ps')
        with eq have "cs = ps' @ m @ ss" by simp
        then show ?thesis by blast
      qed
    next
      assume "m \<in> ?R"
      then show "m \<in> ?L"
      proof
        assume "m \<in> {p. \<exists>ss. c # cs = p @ ss}"
        then obtain ss where "c # cs = [] @ m @ ss" by auto
        then show ?thesis by blast
      next
        assume "m \<in> {m. \<exists>ps ss. cs = ps @ m @ ss}"
        then obtain ps ss where "cs = ps @ m @ ss" by blast
        then have "c # cs = (c # ps) @ m @ ss" by simp
        then show ?thesis by blast
      qed
    qed
  qed
  have "set (substringsOf (c # cs)) = set (prefixesOf (c # cs)) \<union> set (substringsOf cs)"
    by simp
  also have "\<dots> = {p. \<exists>ss. c # cs = p @ ss} \<union> {m. \<exists>ps ss. cs = ps @ m @ ss}"
    by (simp only: set_prefixesOf Cons.IH)
  also have "\<dots> = {m. \<exists>ps ss. c # cs = ps @ m @ ss}"
    using \<open>?L = ?R\<close> by simp
  finally show ?case .
qed

text \<open>
  Lower-casing works character by character, so a piece of the text that equals the
  alias up to letter case is the same as an exact occurrence in the lower-cased text.
\<close>

lemma containsAnyCase_iff:
  "containsAnyCase text a \<longleftrightarrow> str_includes (toLowerCase text) (toLowerCase a)"
proof
  assume "containsAnyCase text a"
  then obtain m ps ss where "text = ps @ m @ ss" and "toLowerCase m = toLowerCase a"
    unfolding containsAnyCase_def list_ex_iff set_substringsOf by blast
  then have "toLowerCase text = toLowerCase ps @ toLowerCase a @ toLowerCase ss"
    by (simp add: toLowerCase_def)
  then show "str_includes (toLowerCase text) (toLowerCase a)"
    unfolding str_includes_iff by blast
next
  assume "str_includes (toLowerCase text) (toLowerCase a)"
  then obtain ps ss where eq: "map toLowerChar text = ps @ map toLowerChar a @ ss"
    unfolding str_includes_iff toLowerCase_def by blast
  then have "\<exists>t1 r. text = t1 @ r \<and> ps = map toLowerChar t1 \<and>
      map toLowerChar a @ ss = map toLowerChar r"
    by (simp add: map_eq_append_conv)
  then obtain t1 r where t1: "text = t1 @ r"
      and r: "map toLowerChar r = map toLowerChar a @ ss"
    by auto
  from r have "\<exists>t2 t3. r = t2 @ t3 \<and> map toLowerChar a = map toLowerChar t2 \<and>
      ss = map toLowerChar t3"
    by (simp add: map_eq_append_conv)
  then obtain t2 t3 where t2: "r = t2 @ t3" "map toLowerChar t2 = map toLowerChar a"
    by auto
  have "text = t1 @ t2 @ t3" using t1 t2 by simp
  moreover have "toLowerCase t2 = toLowerCase a" using t2 by (simp add: toLowerCase_def)
  ultimately show "containsAnyCase text a"
    unfolding containsAnyCase_def list_ex_iff set_substringsOf by blast
qed



section \<open>Identity resolution\<close>

lemma findUserLoop_first:
  "i < length tbl \<Longrightarrow> str_includes q (fst (tbl ! i)) \<Longrightarrow>
   \<forall>j<i. str_includes q (fst (tbl ! j)) \<longrightarrow> snd (tbl ! j) = snd (tbl ! i) \<Longrightarrow>
   findUserLoop tbl q = Some (snd (tbl ! i))"
proof (induction tbl arbitrary: i)
  case Nil
  from Nil.prems(1) show ?case by simp
next
  case (Cons a tbl)
  obtain k u where a: "a = (k, u)" by (cases a)
  show ?case
  proof (cases i)
    case 0
    have "str_includes q k" using Cons.prems(2) a 0 by simp
    then show ?thesis using a 0 by simp
  next
    case (Suc i')
    show ?thesis
    proof (cases "str_includes q k")
      case True
      have "0 < i" using Suc by simp
      moreover have "str_includes q (fst ((a # tbl) ! 0))" using True a by simp
      ultimately have "snd ((a # tbl) ! 0) = snd ((a # tbl) ! i)"
        using Cons.prems(3) by blast
      then have "u = snd ((a # tbl) ! i)" using a by simp
      moreover have "findUserLoop (a # tbl) q = Some u" using True a by simp
      ultimately show ?thesis by simp
    next
      case False
      have 1: "i' < length tbl" using Cons.prems(1) Suc by simp
      have 2: "str_includes q (fst (tbl ! i'))" using Cons.prems(2) Suc by simp
      have 3: "\<forall>j<i'. str_includes q (fst (tbl ! j)) \<longrightarrow> snd (tbl ! j) = snd (tbl ! i')"
      proof (intro allI impI)
        fix j assume j: "j < i'" and inc: "str_includes q (fst (tbl ! j))"
        have "Suc j < i" using j Suc by simp
        moreover have "str_includes q (fst ((a # tbl) ! Suc j))" using inc by simp
        ultimately have "snd ((a # tbl) ! Suc j) = snd ((a # tbl) ! i)"
          using Cons.prems(3) by blast
        then show "snd (tbl ! j) = snd (tbl ! i')" using Suc by simp
      qed
      have "findUserLoop tbl q = Some (snd (tbl ! i'))" using 1 2 3 by (rule Cons.IH)
      moreover have "findUserLoop (a # tbl) q = findUserLoop tbl q" using False a by simp
      moreover have "snd ((a # tbl) ! i) = snd (tbl ! i')" using Suc by simp
      ultimately show ?thesis by simp
    qed
  qed
qed

lemma findUserLoop_none:
  "\<forall>(k, u)\<in>set tbl. \<not> str_includes q k \<Longrightarrow> findUserLoop tbl q = None"
  by (induction tbl) auto

lemma findUserLoop_some:
  "findUserLoop tbl q = Some u \<Longrightarrow> \<exists>k. (k, u) \<in> set tbl \<and> str_includes q k"
  by (induction tbl) (auto split: if_splits)

lemma findUserLoop_cong:
  "\<forall>k\<in>fst ` set tbl. str_includes q1 k = str_includes q2 k \<Longrightarrow>
   findUserLoop tbl q1 = findUserLoop tbl q2"
  by (induction tbl) auto

lemma userMapping_keys_lower: "(a, I) \<in> set userMapping \<Longrightarrow> toLowerCase a = a"
proof -
  have "list_all (\<lambda>(a, I). toLowerCase a = a) userMapping" by code_simp
  then show "(a, I) \<in> set userMapping \<Longrightarrow> toLowerCase a = a"
    unfolding list_all_iff by blast
qed

lemma userMapping_ids_nonempty:
  "(a, I) \<in> set userMapping \<Longrightarrow> jiraId I \<noteq> [] \<and> githubId I \<noteq> []"
proof -
  have "list_all (\<lambda>(a, I). jiraId I \<noteq> [] \<and> githubId I \<noteq> []) userMapping" by code_simp
  then show "(a, I) \<in> set userMapping \<Longrightarrow> jiraId I \<noteq> [] \<and> githubId I \<noteq> []"
    unfolding list_all_iff by blast
qed

lemma containsAnyCase_alias:
  "(a, I) \<in> set userMapping \<Longrightarrow>
   containsAnyCase text a \<longleftrightarrow> str_includes (toLowerCase text) a"
  using containsAnyCase_iff [of "text" a] userMapping_keys_lower [of a I] by simp

text \<open>
  Claim C4, as the source has it. Let \<open>a\<close> be a known alias of identity \<open>I\<close>, and
  let the text contain \<open>a\<close> in any letter case. If every alias registered before \<open>a\<close>
  that the text also contains belongs to the same identity \<open>I\<close>, resolution returns \<open>I\<close>.
  A text that contains no known alias resolves to nothing. A resolved identity has both
  system ids non-empty.
\<close>

theorem findUserInQuery_alias:
  "(\<forall>i<length userMapping.
      containsAnyCase text (fst (userMapping ! i)) \<and>
      (\<forall>j<i. containsAnyCase text (fst (userMapping ! j)) \<longrightarrow>
             snd (userMapping ! j) = snd (userMapping ! i)) \<longrightarrow>
      findUserInQuery text = Some (snd (userMapping ! i))) \<and>
   ((\<forall>(a, I)\<in>set userMapping. \<not> containsAnyCase text a) \<longrightarrow> findUserInQuery text = None) \<and>
   (\<forall>I. findUserInQuery text = Some I \<longrightarrow> jiraId I \<noteq> [] \<and> githubId I \<noteq> [])"
proof (intro conjI allI impI)
  fix i
  assume i: "i < length userMapping"
    and h: "containsAnyCase text (fst (userMapping ! i)) \<and>
      (\<forall>j<i. containsAnyCase text (fst (userMapping ! j)) \<longrightarrow>
             snd (userMapping ! j) = snd (userMapping ! i))"
  have mem: "\<And>j. j < length userMapping \<Longrightarrow>
      (fst (userMapping ! j), snd (userMapping ! j)) \<in> set userMapping"
    by simp
  have conv: "\<And>j. j < length userMapping \<Longrightarrow>
      containsAnyCase text (fst (userMapping ! j)) \<longleftrightarrow>
      str_includes (toLowerCase text) (fst (userMapping ! j))"
    using mem containsAnyCase_alias by blast
  have "str_includes (toLowerCase text) (fst (userMapping ! i))"
    using h i conv by blast
  moreover have "\<forall>j<i. str_includes (toLowerCase text) (fst (userMapping ! j)) \<longrightarrow>
      snd (userMapping ! j) = snd (userMapping ! i)"
  proof (intro allI impI)
    fix j assume "j < i" and "str_includes (toLowerCase text) (fst (userMapping ! j))"
    moreover from \<open>j < i\<close> i have "j < length userMapping" by simp
    ultimately show "snd (userMapping ! j) = snd (userMapping ! i)"
      using h conv by blast
  qed
  ultimately show "findUserInQuery text = Some (snd (userMapping ! i))"
    unfolding findUserInQuery_def using i by (intro findUserLoop_first) auto
next
  assume "\<forall>(a, I)\<in>set userMapping. \<not> containsAnyCase text a"
  then have "\<forall>(a, I)\<in>set userMapping. \<not> str_includes (toLowerCase text) a"
    using containsAnyCase_alias by blast
  then show "findUserInQuery text = None"
    unfolding findUserInQuery_def by (rule findUserLoop_none)
next
  fix I assume "findUserInQuery text = Some I"
  then obtain k where "(k, I) \<in> set userMapping"
    unfolding findUserInQuery_def using findUserLoop_some by blast
  then show "jiraId I \<noteq> []" and "githubId I \<noteq> []"
    using userMapping_ids_nonempty by blast+
qed

theorem findUserInQuery_alias_witness:
  "4 < length userMapping \<and> containsAnyCase ''Ask SARAH'' (fst (userMapping ! 4)) \<and>
   list_all (\<lambda>j. \<not> containsAnyCase ''Ask SARAH'' (fst (userMapping ! j))) [0, 1, 2, 3] \<and>
   findUserInQuery ''Ask SARAH'' = Some sarah \<and>
   list_all (\<lambda>(a, I). \<not> containsAnyCase ''Ask Bob'' a) userMapping \<and>
   findUserInQuery ''Ask Bob'' = None \<and>
   jiraId sarah \<noteq> [] \<and> githubId sarah \<noteq> []"
proof -
  have len: "4 < length userMapping" by (simp add: userMapping_def)
  have here: "containsAnyCase ''Ask SARAH'' (fst (userMapping ! 4))" by code_simp
  have l: "list_all (\<lambda>j. \<not> containsAnyCase ''Ask SARAH'' (fst (userMapping ! j))) [0, 1, 2, 3]"
    by code_simp
  have before: "\<forall>j<4. containsAnyCase ''Ask SARAH'' (fst (userMapping ! j)) \<longrightarrow>
      snd (userMapping ! j) = snd (userMapping ! 4)"
  proof (intro allI impI)
    fix j :: nat assume "j < 4"
    then have "j \<in> set [0, 1, 2, 3]" by auto
    with l have "\<not> containsAnyCase ''Ask SARAH'' (fst (userMapping ! j))"
      unfolding list_all_iff by blast
    moreover assume "containsAnyCase ''Ask SARAH'' (fst (userMapping ! j))"
    ultimately show "snd (userMapping ! j) = snd (userMapping ! 4)" by simp
  qed
  have is_sarah: "snd (userMapping ! 4) = sarah" by (simp add: userMapping_def sarah_def)
  have l2: "list_all (\<lambda>(a, I). \<not> containsAnyCase ''Ask Bob'' a) userMapping" by code_simp
  then have none: "\<forall>(a, I)\<in>set userMapping. \<not> containsAnyCase ''Ask Bob'' a"
    unfolding list_all_iff by blast
  note main = findUserInQuery_alias
  have r1: "findUserInQuery ''Ask SARAH'' = Some sarah"
    using main [of "''Ask SARAH''"] len here before is_sarah by metis
  have r2: "findUserInQuery ''Ask Bob'' = None"
    using main [of "''Ask Bob''"] none by blast
  have r3: "jiraId sarah \<noteq> [] \<and> githubId sarah \<noteq> []"
    using main [of "''Ask SARAH''"] r1 by blast
  show ?thesis using len here l r1 l2 r2 r3 by blast
qed

text \<open>
  The claim as it is written fails: \<open>sarah\<close> is a known alias of Sarah Connor and the
  text contains it, yet resolution returns Mike Ross, whose alias is registered earlier.
\<close>

theorem findUserInQuery_alias_counterexample:
  "(''sarah'', sarah) \<in> set userMapping \<and>
   containsAnyCase ''Sarah and Mike'' ''sarah'' \<and>
   findUserInQuery ''Sarah and Mike'' = Some mike \<and> mike \<noteq> sarah"
  by code_simp

text \<open>
  Claim C10. Resolution is a function of the question text alone. When several
  aliases occur in the question, the result is the identity of the one that comes first
  in the definition order of \<open>userMapping\<close>; where the aliases stand in the question
  does not matter, since two questions in which the same aliases occur resolve alike.
\<close>

theorem findUserInQuery_registration_order:
  "(\<forall>i<length userMapping.
      str_includes (toLowerCase q) (fst (userMapping ! i)) \<and>
      (\<forall>j<i. \<not> str_includes (toLowerCase q) (fst (userMapping ! j))) \<longrightarrow>
      findUserInQuery q = Some (snd (userMapping ! i))) \<and>
   ((\<forall>k\<in>fst ` set userMapping.
       str_includes (toLowerCase q) k = str_includes (toLowerCase q') k) \<longrightarrow>
    findUserInQuery q = findUserInQuery q')"
proof (intro conjI allI impI)
  fix i
  assume "i < length userMapping"
    and "str_includes (toLowerCase q) (fst (userMapping ! i)) \<and>
      (\<forall>j<i. \<not> str_includes (toLowerCase q) (fst (userMapping ! j)))"
  then show "findUserInQuery q = Some (snd (userMapping ! i))"
    unfolding findUserInQuery_def by (intro findUserLoop_first) auto
next
  assume "\<forall>k\<in>fst ` set userMapping.
      str_includes (toLowerCase q) k = str_includes (toLowerCase q') k"
  then show "findUserInQuery q = findUserInQuery q'"
    unfolding findUserInQuery_def by (rule findUserLoop_cong)
qed

theorem findUserInQuery_registration_order_witness:
  "3 < length userMapping \<and>
   str_includes (toLowerCase ''sarah asked Mike'') (fst (userMapping ! 3)) \<and>
   list_all (\<lambda>j. \<not> str_includes (toLowerCase ''sarah asked Mike'') (fst (userMapping ! j)))
     [0, 1, 2] \<and>
   findUserInQuery ''sarah asked Mike'' = Some mike \<and>
   list_all (\<lambda>k. str_includes (toLowerCase ''sarah asked Mike'') k =
       str_includes (toLowerCase ''Mike asked sarah'') k) (map fst userMapping) \<and>
   findUserInQuery ''sarah asked Mike'' = findUserInQuery ''Mike asked sarah''"
proof -
  have len: "3 < length userMapping" by (simp add: userMapping_def)
  have here: "str_includes (toLowerCase ''sarah asked Mike'') (fst (userMapping ! 3))"
    by code_simp
  have l: "list_all (\<lambda>j. \<not> str_includes (toLowerCase ''sarah asked Mike'')
      (fst (userMapping ! j))) [0, 1, 2]"
    by code_simp
  have before: "\<forall>j<3. \<not> str_includes (toLowerCase ''sarah asked Mike'') (fst (userMapping ! j))"
  proof (intro allI impI)
    fix j :: nat assume "j < 3"
    then have "j \<in> set [0, 1, 2]" by auto
    with l show "\<not> str_includes (toLowerCase ''sarah asked Mike'') (fst (userMapping ! j))"
      unfolding list_all_iff by blast
  qed
  have l2: "list_all (\<lambda>k. str_includes (toLowerCase ''sarah asked Mike'') k =
      str_includes (toLowerCase ''Mike asked sarah'') k) (map fst userMapping)"
    by code_simp
  then have same: "\<forall>k\<in>fst ` set userMapping.
      str_includes (toLowerCase ''sarah asked Mike'') k =
      str_includes (toLowerCase ''Mike asked sarah'') k"
    unfolding list_all_iff by simp
  have is_mike: "snd (userMapping ! 3) = mike" by (simp add: userMapping_def mike_def)
  note main = findUserInQuery_registration_order
  have r1: "findUserInQuery ''sarah asked Mike'' = Some mike"
    using main [of "''sarah asked Mike''"] len here before is_mike by metis
  have r2: "findUserInQuery ''sarah asked Mike'' = findUserInQuery ''Mike asked sarah''"
    using main [of "''sarah asked Mike''" "''Mike asked sarah''"] same by blast
  show ?thesis using len here l r1 l2 r2 by blast
qed


section \<open>Data cache\<close>

text \<open>
  Claim C3. A read of a key that was never written is a miss and leaves the map as it
  is. A read of an entry older than the TTL at the time of the read is a miss and
  deletes the entry. A read after a write of the same key, at most the TTL later,
  returns exactly the payload written.
\<close>

theorem getCachedData_miss_expired_hit:
  "CACHE_TTL = 300000 \<and>
   (c k = None \<longrightarrow> getCachedData now k c = (None, c)) \<and>
   (\<forall>e. c k = Some e \<and> now - timestamp e > CACHE_TTL \<longrightarrow>
        getCachedData now k c = (None, c(k := None))) \<and>
   (now - t > CACHE_TTL \<longrightarrow>
      fst (getCachedData now k (setCachedData t k payload c)) = None \<and>
      snd (getCachedData now k (setCachedData t k payload c)) k = None) \<and>
   (now - t \<le> CACHE_TTL \<longrightarrow>
      getCachedData now k (setCachedData t k payload c) =
        (Some payload, setCachedData t k payload c))"
  by (simp add: getCachedData_def setCachedData_def CACHE_TTL_def)

theorem getCachedData_miss_expired_hit_witness:
  "(Map.empty :: cache) ''jira_Mike Ross'' = None \<and>
   fst (getCachedData 1000000 ''jira_Mike Ross'' Map.empty) = None \<and>
   1000000 - 600000 > CACHE_TTL \<and>
   fst (getCachedData 1000000 ''jira_Mike Ross''
          (setCachedData 600000 ''jira_Mike Ross'' [exampleIssue] Map.empty)) = None \<and>
   snd (getCachedData 1000000 ''jira_Mike Ross''
          (setCachedData 600000 ''jira_Mike Ross'' [exampleIssue] Map.empty))
     ''jira_Mike Ross'' = None \<and>
   1000000 - 700000 \<le> CACHE_TTL \<and>
   fst (getCachedData 1000000 ''jira_Mike Ross''
          (setCachedData 700000 ''jira_Mike Ross'' [exampleIssue] Map.empty)) =
     Some [exampleIssue]"
proof -
  have old: "(1000000 :: int) - 600000 > CACHE_TTL" by (simp add: CACHE_TTL_def)
  have fresh: "(1000000 :: int) - 700000 \<le> CACHE_TTL" by (simp add: CACHE_TTL_def)
  have none: "(Map.empty :: cache) ''jira_Mike Ross'' = None" by simp
  note main = getCachedData_miss_expired_hit
  have r1: "fst (getCachedData 1000000 ''jira_Mike Ross'' Map.empty) = None"
    using main [of Map.empty "''jira_Mike Ross''" 1000000] none by simp
  have r2: "fst (getCachedData 1000000 ''jira_Mike Ross''
          (setCachedData 600000 ''jira_Mike Ross'' [exampleIssue] Map.empty)) = None \<and>
      snd (getCachedData 1000000 ''jira_Mike Ross''
          (setCachedData 600000 ''jira_Mike Ross'' [exampleIssue] Map.empty))
        ''jira_Mike Ross'' = None"
    using main [of Map.empty "''jira_Mike Ross''" 1000000 600000 "[exampleIssue]"] old
    by blast
  have r3: "fst (getCachedData 1000000 ''jira_Mike Ross''
          (setCachedData 700000 ''jira_Mike Ross'' [exampleIssue] Map.empty)) =
      Some [exampleIssue]"
    using main [of Map.empty "''jira_Mike Ross''" 1000000 700000 "[exampleIssue]"] fresh
    by simp
  show ?thesis using none r1 old r2 fresh r3 by blast
qed



section \<open>Intent classification\<close>

text \<open>
  Claim C7. \<open>classifyIntent\<close> always returns one of the four labels. An answer of
  the model that, trimmed and in upper case, is none of the four labels gives
  \<open>FULL_SUMMARY\<close>. A failure of the model call gives \<open>FULL_SUMMARY\<close> as well, and
  the query goes on with the full-summary fetch: nothing is thrown.
\<close>

theorem classifyIntent_closed_set:
  "fst (classifyIntent env w question) \<in> set [''JIRA'', ''COMMITS'', ''PRS'', ''FULL_SUMMARY''] \<and>
   (\<forall>answer latency.
      genAI_generateContent env (clock w) (IntentPrompt question) = (Inr answer, latency) \<and>
      toUpperCase (trim answer) \<notin> set [''JIRA'', ''COMMITS'', ''PRS'', ''FULL_SUMMARY''] \<longrightarrow>
      fst (classifyIntent env w question) = ''FULL_SUMMARY'') \<and>
   (\<forall>message latency.
      genAI_generateContent env (clock w) (IntentPrompt question) = (Inl message, latency) \<longrightarrow>
      classifyIntent env w question =
        (''FULL_SUMMARY'', w\<lparr>clock := clock w + int latency\<rparr>,
         [GenerateContent (IntentPrompt question)]) \<and>
      tryBlock env w question u =
        (case fetchByIntent env (w\<lparr>clock := clock w + int latency\<rparr>) u ''FULL_SUMMARY'' of
           (Inl e, w2, c2) \<Rightarrow> (Inl e, w2, GenerateContent (IntentPrompt question) # c2)
         | (Inr d, w2, c2) \<Rightarrow>
             (case answerFromData env w2 question u d of
                (r, w3, c3) \<Rightarrow> (r, w3, GenerateContent (IntentPrompt question) # c2 @ c3))))"
proof (intro conjI allI impI)
  show "fst (classifyIntent env w question) \<in> set [''JIRA'', ''COMMITS'', ''PRS'', ''FULL_SUMMARY'']"
  proof (cases "genAI_generateContent env (clock w) (IntentPrompt question)")
    case (Pair r latency)
    then show ?thesis
      by (cases r) (simp_all add: classifyIntent_def Let_def)
  qed
next
  fix answer latency
  assume "genAI_generateContent env (clock w) (IntentPrompt question) = (Inr answer, latency) \<and>
      toUpperCase (trim answer) \<notin> set [''JIRA'', ''COMMITS'', ''PRS'', ''FULL_SUMMARY'']"
  then show "fst (classifyIntent env w question) = ''FULL_SUMMARY''"
    by (simp add: classifyIntent_def Let_def)
next
  fix message latency
  assume fail: "genAI_generateContent env (clock w) (IntentPrompt question) = (Inl message, latency)"
  then show c: "classifyIntent env w question =
        (''FULL_SUMMARY'', w\<lparr>clock := clock w + int latency\<rparr>,
         [GenerateContent (IntentPrompt question)])"
    by (simp add: classifyIntent_def)
  show "tryBlock env w question u =
        (case fetchByIntent env (w\<lparr>clock := clock w + int latency\<rparr>) u ''FULL_SUMMARY'' of
           (Inl e, w2, c2) \<Rightarrow> (Inl e, w2, GenerateContent (IntentPrompt question) # c2)
         | (Inr d, w2, c2) \<Rightarrow>
             (case answerFromData env w2 question u d of
                (r, w3, c3) \<Rightarrow> (r, w3, GenerateContent (IntentPrompt question) # c2 @ c3)))"
    unfolding tryBlock_def c by (simp split: prod.splits sum.splits)
qed

theorem classifyIntent_closed_set_witness:
  "genAI_generateContent (exampleEnv (Inr ''I think jira'') (Inr []) (Inr []) (Inr []))
     (clock emptyWorld) (IntentPrompt ''mike?'') = (Inr ''I think jira'', 120) \<and>
   toUpperCase (trim ''I think jira'') \<noteq> ''JIRA'' \<and>
   toUpperCase (trim ''I think jira'') \<noteq> ''COMMITS'' \<and>
   toUpperCase (trim ''I think jira'') \<noteq> ''PRS'' \<and>
   toUpperCase (trim ''I think jira'') \<noteq> ''FULL_SUMMARY'' \<and>
   fst (classifyIntent (exampleEnv (Inr ''I think jira'') (Inr []) (Inr []) (Inr []))
          emptyWorld ''mike?'') = ''FULL_SUMMARY'' \<and>
   genAI_generateContent (exampleEnv (Inl ''fetch failed'') (Inr []) (Inr []) (Inr []))
     (clock emptyWorld) (IntentPrompt ''mike?'') = (Inl ''fetch failed'', 120) \<and>
   fst (classifyIntent (exampleEnv (Inl ''fetch failed'') (Inr []) (Inr []) (Inr []))
          emptyWorld ''mike?'') = ''FULL_SUMMARY''"
proof -
  let ?e1 = "exampleEnv (Inr ''I think jira'') (Inr []) (Inr []) (Inr [])"
  let ?e2 = "exampleEnv (Inl ''fetch failed'') (Inr []) (Inr []) (Inr [])"
  have g1: "genAI_generateContent ?e1 (clock emptyWorld) (IntentPrompt ''mike?'') =
      (Inr ''I think jira'', 120)"
    by (simp add: exampleEnv_def)
  have g2: "genAI_generateContent ?e2 (clock emptyWorld) (IntentPrompt ''mike?'') =
      (Inl ''fetch failed'', 120)"
    by (simp add: exampleEnv_def)
  have n: "toUpperCase (trim ''I think jira'') \<noteq> ''JIRA'' \<and>
      toUpperCase (trim ''I think jira'') \<noteq> ''COMMITS'' \<and>
      toUpperCase (trim ''I think jira'') \<noteq> ''PRS'' \<and>
      toUpperCase (trim ''I think jira'') \<noteq> ''FULL_SUMMARY''"
    by code_simp
  then have n': "toUpperCase (trim ''I think jira'') \<notin>
      set [''JIRA'', ''COMMITS'', ''PRS'', ''FULL_SUMMARY'']"
    by simp
  note main = classifyIntent_closed_set
  have r1: "fst (classifyIntent ?e1 emptyWorld ''mike?'') = ''FULL_SUMMARY''"
    using main [of ?e1 emptyWorld "''mike?''"] g1 n' by blast
  have "classifyIntent ?e2 emptyWorld ''mike?'' =
      (''FULL_SUMMARY'', emptyWorld\<lparr>clock := clock emptyWorld + int 120\<rparr>,
       [GenerateContent (IntentPrompt ''mike?'')])"
    using main [of ?e2 emptyWorld "''mike?''"] g2 by blast
  then have r2: "fst (classifyIntent ?e2 emptyWorld ''mike?'') = ''FULL_SUMMARY''"
    by simp
  show ?thesis using g1 n r1 g2 r2 by blast
qed



section \<open>Fan-out over the contribution repositories\<close>

lemma commitsLoop_append:
  "commitsLoop gh u (xs @ ys) acc = commitsLoop gh u ys (commitsLoop gh u xs acc)"
  by (induction gh u xs acc rule: commitsLoop.induct)
     (simp_all split: option.splits sum.splits)

lemma prsLoop_append:
  "prsLoop gh u (xs @ ys) acc = prsLoop gh u ys (prsLoop gh u xs acc)"
  by (induction gh u xs acc rule: prsLoop.induct)
     (simp_all split: option.splits sum.splits)

lemma commitsLoop_all_ok:
  "\<forall>n\<in>set names. \<exists>owner repo. ownerAndRepo n = Some (owner, repo) \<and>
       getRecentCommits gh u owner repo = Inr (ok n) \<Longrightarrow>
   commitsLoop gh u (map JStr names) acc = acc @ taggedRecords names ok"
proof (induction names arbitrary: acc)
  case Nil
  show ?case by (simp add: taggedRecords_def)
next
  case (Cons n names)
  from Cons.prems obtain owner repo where n: "ownerAndRepo n = Some (owner, repo)"
      "getRecentCommits gh u owner repo = Inr (ok n)"
    by auto
  have rest: "\<forall>m\<in>set names. \<exists>owner repo. ownerAndRepo m = Some (owner, repo) \<and>
       getRecentCommits gh u owner repo = Inr (ok m)"
    using Cons.prems by simp
  have "commitsLoop gh u (map JStr (n # names)) acc =
      commitsLoop gh u (map JStr names) (acc @ map (setProp ''repo'' (JStr n)) (ok n))"
    using n by simp
  also have "\<dots> = (acc @ map (setProp ''repo'' (JStr n)) (ok n)) @ taggedRecords names ok"
    using rest by (rule Cons.IH)
  also have "\<dots> = acc @ taggedRecords (n # names) ok"
    by (simp add: taggedRecords_def)
  finally show ?case .
qed

lemma prsLoop_all_ok:
  "\<forall>n\<in>set names. \<exists>owner repo. ownerAndRepo n = Some (owner, repo) \<and>
       getActivePullRequests gh u owner repo = Inr (ok n) \<Longrightarrow>
   prsLoop gh u (map JStr names) acc = acc @ taggedRecords names ok"
proof (induction names arbitrary: acc)
  case Nil
  show ?case by (simp add: taggedRecords_def)
next
  case (Cons n names)
  from Cons.prems obtain owner repo where n: "ownerAndRepo n = Some (owner, repo)"
      "getActivePullRequests gh u owner repo = Inr (ok n)"
    by auto
  have rest: "\<forall>m\<in>set names. \<exists>owner repo. ownerAndRepo m = Some (owner, repo) \<and>
       getActivePullRequests gh u owner repo = Inr (ok m)"
    using Cons.prems by simp
  have "prsLoop gh u (map JStr (n # names)) acc =
      prsLoop gh u (map JStr names) (acc @ map (setProp ''repo'' (JStr n)) (ok n))"
    using n by simp
  also have "\<dots> = (acc @ map (setProp ''repo'' (JStr n)) (ok n)) @ taggedRecords names ok"
    using rest by (rule Cons.IH)
  also have "\<dots> = acc @ taggedRecords (n # names) ok"
    by (simp add: taggedRecords_def)
  finally show ?case .
qed

text \<open>What \<open>oneRepoFails\<close> says about the names before, at and after position \<open>i\<close>.\<close>

lemma oneRepoFails_at:
  assumes "oneRepoFails fetch names i ok"
  shows "\<exists>owner repo message. ownerAndRepo (names ! i) = Some (owner, repo) \<and>
      fetch owner repo = Inl message"
proof -
  from assms have i: "i < length names" by (simp add: oneRepoFails_def)
  then have "i \<in> set [0..<length names]" by simp
  with assms have "case ownerAndRepo (names ! i) of None \<Rightarrow> False
      | Some (owner, repo) \<Rightarrow>
          if i = i then isl (fetch owner repo) else fetch owner repo = Inr (ok (names ! i))"
    unfolding oneRepoFails_def list_all_iff by blast
  then show ?thesis
    by (auto split: option.splits simp: isl_def)
qed

lemma oneRepoFails_others:
  assumes "oneRepoFails fetch names i ok" and "j < length names" and "j \<noteq> i"
  shows "\<exists>owner repo. ownerAndRepo (names ! j) = Some (owner, repo) \<and>
      fetch owner repo = Inr (ok (names ! j))"
proof -
  from assms(2) have "j \<in> set [0..<length names]" by simp
  with assms(1) have "case ownerAndRepo (names ! j) of None \<Rightarrow> False
      | Some (owner, repo) \<Rightarrow>
          if j = i then isl (fetch owner repo) else fetch owner repo = Inr (ok (names ! j))"
    unfolding oneRepoFails_def list_all_iff by blast
  with assms(3) show ?thesis
    by (auto split: option.splits)
qed

lemma oneRepoFails_before:
  assumes "oneRepoFails fetch names i ok" and "n \<in> set (take i names)"
  shows "\<exists>owner repo. ownerAndRepo n = Some (owner, repo) \<and> fetch owner repo = Inr (ok n)"
proof -
  from assms(1) have i: "i < length names" by (simp add: oneRepoFails_def)
  from assms(2) obtain j where j: "j < length (take i names)" "take i names ! j = n"
    by (auto simp: in_set_conv_nth)
  then have "j < i" "j < length names" "names ! j = n" using i by auto
  with oneRepoFails_others [OF assms(1), of j] show ?thesis by auto
qed

lemma oneRepoFails_after:
  assumes "oneRepoFails fetch names i ok" and "n \<in> set (drop (Suc i) names)"
  shows "\<exists>owner repo. ownerAndRepo n = Some (owner, repo) \<and> fetch owner repo = Inr (ok n)"
proof -
  from assms(2) obtain j where j: "j < length (drop (Suc i) names)"
      "drop (Suc i) names ! j = n"
    by (auto simp: in_set_conv_nth)
  then have "Suc i + j < length names" "names ! (Suc i + j) = n" "Suc i + j \<noteq> i" by auto
  with oneRepoFails_others [OF assms(1), of "Suc i + j"] show ?thesis by auto
qed

lemma commitsLoop_one_fails:
  assumes "oneRepoFails (getRecentCommits gh u) names i ok"
  shows "commitsLoop gh u (map JStr names) [] =
      taggedRecords (take i names @ drop (Suc i) names) ok"
proof -
  from assms have i: "i < length names" by (simp add: oneRepoFails_def)
  from oneRepoFails_at [OF assms] obtain owner repo message
    where bad: "ownerAndRepo (names ! i) = Some (owner, repo)"
      "getRecentCommits gh u owner repo = Inl message"
    by blast
  have split: "map JStr names =
      map JStr (take i names) @ [JStr (names ! i)] @ map JStr (drop (Suc i) names)"
    using i by (metis append_Cons append_Nil id_take_nth_drop list.simps(9) map_append)
  have before: "commitsLoop gh u (map JStr (take i names)) [] = taggedRecords (take i names) ok"
    using commitsLoop_all_ok [of "take i names" gh u ok "[]"] oneRepoFails_before [OF assms]
    by simp
  have at: "\<And>acc. commitsLoop gh u [JStr (names ! i)] acc = acc"
    using bad by simp
  have after: "\<And>acc. commitsLoop gh u (map JStr (drop (Suc i) names)) acc =
      acc @ taggedRecords (drop (Suc i) names) ok"
    using commitsLoop_all_ok [of "drop (Suc i) names" gh u ok] oneRepoFails_after [OF assms]
    by simp
  have "commitsLoop gh u (map JStr names) [] =
      taggedRecords (take i names) ok @ taggedRecords (drop (Suc i) names) ok"
    by (simp only: split commitsLoop_append before at after)
  then show ?thesis by (simp add: taggedRecords_def)
qed

lemma prsLoop_one_fails:
  assumes "oneRepoFails (getActivePullRequests gh u) names i ok"
  shows "prsLoop gh u (map JStr names) [] =
      taggedRecords (take i names @ drop (Suc i) names) ok"
proof -
  from assms have i: "i < length names" by (simp add: oneRepoFails_def)
  from oneRepoFails_at [OF assms] obtain owner repo message
    where bad: "ownerAndRepo (names ! i) = Some (owner, repo)"
      "getActivePullRequests gh u owner repo = Inl message"
    by blast
  have split: "map JStr names =
      map JStr (take i names) @ [JStr (names ! i)] @ map JStr (drop (Suc i) names)"
    using i by (metis append_Cons append_Nil id_take_nth_drop list.simps(9) map_append)
  have before: "prsLoop gh u (map JStr (take i names)) [] = taggedRecords (take i names) ok"
    using prsLoop_all_ok [of "take i names" gh u ok "[]"] oneRepoFails_before [OF assms]
    by simp
  have at: "\<And>acc. prsLoop gh u [JStr (names ! i)] acc = acc"
    using bad by simp
  have after: "\<And>acc. prsLoop gh u (map JStr (drop (Suc i) names)) acc =
      acc @ taggedRecords (drop (Suc i) names) ok"
    using prsLoop_all_ok [of "drop (Suc i) names" gh u ok] oneRepoFails_after [OF assms]
    by simp
  have "prsLoop gh u (map JStr names) [] =
      taggedRecords (take i names) ok @ taggedRecords (drop (Suc i) names) ok"
    by (simp only: split prsLoop_append before at after)
  then show ?thesis by (simp add: taggedRecords_def)
qed

text \<open>
  Claim C5. Let the discovery return the repositories \<open>names\<close>, and let the fetch for
  exactly one of them fail. Then the search for commits, and likewise the search for
  pull requests, returns normally, and its result holds the records of all other
  repositories in order, each tagged with its repository, and nothing of the one
  that failed.
\<close>

theorem fanout_one_repo_fails:
  "getContributionRepos gh username = Inr (map JStr names) \<Longrightarrow>
   (oneRepoFails (getRecentCommits gh username) names i ok \<longrightarrow>
      searchRecentCommitsByUser gh username =
        Inr (taggedRecords (take i names @ drop (Suc i) names) ok)) \<and>
   (oneRepoFails (getActivePullRequests gh username) names i ok' \<longrightarrow>
      searchActivePRsByUser gh username =
        Inr (taggedRecords (take i names @ drop (Suc i) names) ok'))"
  by (simp add: searchRecentCommitsByUser_def searchActivePRsByUser_def
      commitsLoop_one_fails prsLoop_one_fails)

theorem fanout_one_repo_fails_witness:
  "getContributionRepos exampleGithub ''lsmith'' =
     Inr (map JStr [''acme/api'', ''acme/gone'', ''acme/web'']) \<and>
   oneRepoFails (getRecentCommits exampleGithub ''lsmith'')
     [''acme/api'', ''acme/gone'', ''acme/web''] 1 exampleRepoCommits \<and>
   searchRecentCommitsByUser exampleGithub ''lsmith'' =
     Inr [[(''sha'', JStr ''api''), (''repo'', JStr ''acme/api'')],
          [(''sha'', JStr ''web''), (''repo'', JStr ''acme/web'')]] \<and>
   oneRepoFails (getActivePullRequests exampleGithub ''lsmith'')
     [''acme/api'', ''acme/gone'', ''acme/web''] 1 exampleRepoPRs \<and>
   searchActivePRsByUser exampleGithub ''lsmith'' =
     Inr [[(''title'', JStr ''api''), (''user'', JObj [(''login'', JStr ''lsmith'')]),
           (''repo'', JStr ''acme/api'')],
          [(''title'', JStr ''web''), (''user'', JObj [(''login'', JStr ''lsmith'')]),
           (''repo'', JStr ''acme/web'')]]"
proof -
  let ?names = "[''acme/api'', ''acme/gone'', ''acme/web'']"
  have repos: "getContributionRepos exampleGithub ''lsmith'' = Inr (map JStr ?names)"
    by code_simp
  have h1: "oneRepoFails (getRecentCommits exampleGithub ''lsmith'') ?names 1 exampleRepoCommits"
    by code_simp
  have h2: "oneRepoFails (getActivePullRequests exampleGithub ''lsmith'') ?names 1 exampleRepoPRs"
    by code_simp
  have t1: "taggedRecords (take 1 ?names @ drop (Suc 1) ?names) exampleRepoCommits =
      [[(''sha'', JStr ''api''), (''repo'', JStr ''acme/api'')],
       [(''sha'', JStr ''web''), (''repo'', JStr ''acme/web'')]]"
    by code_simp
  have t2: "taggedRecords (take 1 ?names @ drop (Suc 1) ?names) exampleRepoPRs =
      [[(''title'', JStr ''api''), (''user'', JObj [(''login'', JStr ''lsmith'')]),
        (''repo'', JStr ''acme/api'')],
       [(''title'', JStr ''web''), (''user'', JObj [(''login'', JStr ''lsmith'')]),
        (''repo'', JStr ''acme/web'')]]"
    by code_simp
  note main = fanout_one_repo_fails [OF repos, of 1 exampleRepoCommits exampleRepoPRs]
  have r1: "searchRecentCommitsByUser exampleGithub ''lsmith'' =
      Inr [[(''sha'', JStr ''api''), (''repo'', JStr ''acme/api'')],
           [(''sha'', JStr ''web''), (''repo'', JStr ''acme/web'')]]"
    using main h1 t1 by simp
  have r2: "searchActivePRsByUser exampleGithub ''lsmith'' =
      Inr [[(''title'', JStr ''api''), (''user'', JObj [(''login'', JStr ''lsmith'')]),
            (''repo'', JStr ''acme/api'')],
           [(''title'', JStr ''web''), (''user'', JObj [(''login'', JStr ''lsmith'')]),
            (''repo'', JStr ''acme/web'')]]"
    using main h2 t2 by simp
  show ?thesis using repos h1 r1 h2 r2 by blast
qed



section \<open>The steps of a query\<close>

lemma classifyIntent_calls [simp]:
  "callsOf (classifyIntent env w question) = [GenerateContent (IntentPrompt question)]"
proof (cases "genAI_generateContent env (clock w) (IntentPrompt question)")
  case (Pair r latency)
  then show ?thesis
    by (cases r) (simp_all add: classifyIntent_def callsOf_def Let_def)
qed

lemma classifyIntent_cache [simp]:
  "dataCache (worldOf (classifyIntent env w question)) = dataCache w"
proof (cases "genAI_generateContent env (clock w) (IntentPrompt question)")
  case (Pair r latency)
  then show ?thesis
    by (cases r) (simp_all add: classifyIntent_def worldOf_def Let_def)
qed

lemma fetchWithCache_calls:
  "callsOf (fetchWithCache keyPrefix search mkCall w ident) = [] \<or>
   callsOf (fetchWithCache keyPrefix search mkCall w ident) = [mkCall ident]"
  by (simp add: fetchWithCache_def callsOf_def Let_def split: prod.splits option.splits sum.splits)

lemma fetchJiraData_calls:
  "c \<in> set (callsOf (fetchJiraData env w ident)) \<Longrightarrow> c = SearchActiveIssues ident"
  using fetchWithCache_calls
    [of "''jira_''" "jira_searchActiveIssuesByUser env" SearchActiveIssues w ident]
  by (auto simp: fetchJiraData_def)

lemma fetchPRsData_calls:
  "c \<in> set (callsOf (fetchPRsData env w ident)) \<Longrightarrow> c = SearchActivePRs ident"
  using fetchWithCache_calls
    [of "''prs_''" "github_searchActivePRsByUser env" SearchActivePRs w ident]
  by (auto simp: fetchPRsData_def)

lemma fetchCommitsData_calls:
  "c \<in> set (callsOf (fetchCommitsData env w ident)) \<Longrightarrow> c = SearchRecentCommits ident"
  using fetchWithCache_calls
    [of "''commits_''" "github_searchRecentCommitsByUser env" SearchRecentCommits w ident]
  by (auto simp: fetchCommitsData_def)

lemma fetchAll_calls:
  "callsOf (fetchAll env w u) =
     callsOf (fetchJiraData env w (jiraId u)) @
     callsOf (fetchPRsData env ((worldOf (fetchJiraData env w (jiraId u)))\<lparr>clock := clock w\<rparr>)
                (githubId u)) @
     callsOf (fetchCommitsData env
       ((worldOf (fetchPRsData env
           ((worldOf (fetchJiraData env w (jiraId u)))\<lparr>clock := clock w\<rparr>) (githubId u)))
         \<lparr>clock := clock w\<rparr>) (githubId u))"
  by (simp add: fetchAll_def callsOf_def worldOf_def Let_def split: prod.splits)

lemma fetchByIntent_calls:
  "c \<in> set (callsOf (fetchByIntent env w u intent)) \<Longrightarrow> \<not> isGenerateContent c"
proof -
  assume c: "c \<in> set (callsOf (fetchByIntent env w u intent))"
  consider (jira) "intent = ''JIRA''" | (commits) "intent \<noteq> ''JIRA''" "intent = ''COMMITS''"
    | (prs) "intent \<noteq> ''JIRA''" "intent \<noteq> ''COMMITS''" "intent = ''PRS''"
    | (full) "intent \<noteq> ''JIRA''" "intent \<noteq> ''COMMITS''" "intent \<noteq> ''PRS''"
    by blast
  then show ?thesis
  proof cases
    case jira
    then have "callsOf (fetchByIntent env w u intent) = callsOf (fetchJiraData env w (jiraId u))"
      by (simp add: fetchByIntent_def callsOf_def split: prod.splits sum.splits)
    with c fetchJiraData_calls show ?thesis by fastforce
  next
    case commits
    then have "callsOf (fetchByIntent env w u intent) =
        callsOf (fetchCommitsData env w (githubId u))"
      by (simp add: fetchByIntent_def callsOf_def split: prod.splits sum.splits)
    with c fetchCommitsData_calls show ?thesis by fastforce
  next
    case prs
    then have "callsOf (fetchByIntent env w u intent) = callsOf (fetchPRsData env w (githubId u))"
      by (simp add: fetchByIntent_def callsOf_def split: prod.splits sum.splits)
    with c fetchPRsData_calls show ?thesis by fastforce
  next
    case full
    then have "fetchByIntent env w u intent = fetchAll env w u"
      by (simp add: fetchByIntent_def)
    with c have "c \<in> set (callsOf (fetchAll env w u))" by simp
    then show ?thesis
      unfolding fetchAll_calls
      using fetchJiraData_calls fetchPRsData_calls fetchCommitsData_calls by fastforce
  qed
qed

text \<open>\<open>handleAIQuery\<close> for a known user, by the outcome of step 3.\<close>

lemma handleAIQuery_fetch_failed:
  assumes "findUserInQuery question = Some u"
    and "resultOf (fetchStep env w question u) = Inl message"
  shows "handleAIQuery env w question =
     (catchBlock message, worldOf (fetchStep env w question u),
      GenerateContent (IntentPrompt question) # callsOf (fetchStep env w question u))"
proof -
  obtain intent w1 c1 where ci: "classifyIntent env w question = (intent, w1, c1)"
    by (cases "classifyIntent env w question") auto
  have c1: "c1 = [GenerateContent (IntentPrompt question)]"
    using classifyIntent_calls [of env w question] ci by (simp add: callsOf_def)
  obtain r w2 c2 where fi: "fetchByIntent env w1 u intent = (r, w2, c2)"
    by (cases "fetchByIntent env w1 u intent") auto
  have "r = Inl message"
    using assms(2) ci fi by (simp add: fetchStep_def resultOf_def worldOf_def)
  then show ?thesis
    using assms(1) ci fi c1
    by (simp add: handleAIQuery_def tryBlock_def fetchStep_def resultOf_def worldOf_def
        callsOf_def)
qed

lemma handleAIQuery_fetched:
  assumes "findUserInQuery question = Some u"
    and "resultOf (fetchStep env w question u) = Inr d"
  shows "handleAIQuery env w question =
     (case resultOf (answerFromData env (worldOf (fetchStep env w question u)) question u d) of
        Inr answer \<Rightarrow> answer
      | Inl message \<Rightarrow> catchBlock message,
      worldOf (answerFromData env (worldOf (fetchStep env w question u)) question u d),
      GenerateContent (IntentPrompt question) # callsOf (fetchStep env w question u) @
        callsOf (answerFromData env (worldOf (fetchStep env w question u)) question u d))"
proof -
  obtain intent w1 c1 where ci: "classifyIntent env w question = (intent, w1, c1)"
    by (cases "classifyIntent env w question") auto
  have c1: "c1 = [GenerateContent (IntentPrompt question)]"
    using classifyIntent_calls [of env w question] ci by (simp add: callsOf_def)
  obtain r w2 c2 where fi: "fetchByIntent env w1 u intent = (r, w2, c2)"
    by (cases "fetchByIntent env w1 u intent") auto
  have r: "r = Inr d"
    using assms(2) ci fi by (simp add: fetchStep_def resultOf_def worldOf_def)
  obtain a w3 c3 where an: "answerFromData env w2 question u d = (a, w3, c3)"
    by (cases "answerFromData env w2 question u d") auto
  show ?thesis
    using assms(1) ci fi c1 r an
    by (cases a)
       (simp_all add: handleAIQuery_def tryBlock_def fetchStep_def resultOf_def worldOf_def
          callsOf_def)
qed

lemma answerFromData_empty:
  "answerFromData env w question u ([], [], []) = (Inr (noActivityMessage u), w, [])"
  by (simp add: answerFromData_def)

lemma answerFromData_nonempty:
  assumes "d \<noteq> ([], [], [])"
  shows "answerFromData env w question u d =
     (fst (genAI_generateContent env (clock w)
        (SummaryPrompt question u
           (dataContext (JSON_stringify env) (addRelativeTimes env (clock w) d)))),
      w\<lparr>clock := clock w + int (snd (genAI_generateContent env (clock w)
        (SummaryPrompt question u
           (dataContext (JSON_stringify env) (addRelativeTimes env (clock w) d)))))\<rparr>,
      [GenerateContent (SummaryPrompt question u
           (dataContext (JSON_stringify env) (addRelativeTimes env (clock w) d)))])"
proof -
  obtain jiraIssues githubPRs githubCommits where d: "d = (jiraIssues, githubPRs, githubCommits)"
    by (cases d) auto
  with assms have "\<not> (jiraIssues = [] \<and> githubPRs = [] \<and> githubCommits = [])" by simp
  then show ?thesis
    unfolding d answerFromData_def by (simp add: Let_def split: prod.splits)
qed



section \<open>Upstream failures\<close>

text \<open>
  Claim C9, as the source has it. For a known user, an error thrown by a fetch of
  step 3 or by the final call to the model is not thrown by \<open>handleAIQuery\<close>: the answer
  is a message chosen from the error's message by the first test that succeeds,
  in this order: it includes 404 (missing repository); it includes 401 or 403
  (credentials); it includes "rate limit" (try again later); otherwise the
  generic message that ends with the error's message.
\<close>

theorem handleAIQuery_upstream_failure:
  "findUserInQuery question = Some u \<Longrightarrow>
   (resultOf (fetchStep env w question u) = Inl message \<longrightarrow>
      resultOf (handleAIQuery env w question) = catchBlock message) \<and>
   (\<forall>d. resultOf (fetchStep env w question u) = Inr d \<and> d \<noteq> ([], [], []) \<and>
        fst (genAI_generateContent env (clock (worldOf (fetchStep env w question u)))
          (SummaryPrompt question u
            (dataContext (JSON_stringify env)
              (addRelativeTimes env (clock (worldOf (fetchStep env w question u))) d)))) =
          Inl message \<longrightarrow>
        resultOf (handleAIQuery env w question) = catchBlock message) \<and>
   (str_includes message ''404'' \<longrightarrow>
      catchBlock message =
        ''Sorry, I couldn't find one or more repositories. The user might not have access to some repos.'') \<and>
   (\<not> str_includes message ''404'' \<and>
    (str_includes message ''401'' \<or> str_includes message ''403'') \<longrightarrow>
      catchBlock message =
        ''Authentication error: Please check your API credentials in the .env file.'') \<and>
   (\<not> str_includes message ''404'' \<and> \<not> str_includes message ''401'' \<and>
    \<not> str_includes message ''403'' \<and> str_includes message ''rate limit'' \<longrightarrow>
      catchBlock message = ''API rate limit exceeded. Please try again in a few minutes.'') \<and>
   (\<not> str_includes message ''404'' \<and> \<not> str_includes message ''401'' \<and>
    \<not> str_includes message ''403'' \<and> \<not> str_includes message ''rate limit'' \<longrightarrow>
      catchBlock message = ''An error occurred while fetching data: '' @ message)"
proof (intro conjI allI impI)
  assume u: "findUserInQuery question = Some u"
    and "resultOf (fetchStep env w question u) = Inl message"
  then show "resultOf (handleAIQuery env w question) = catchBlock message"
    by (simp add: handleAIQuery_fetch_failed resultOf_def)
next
  fix d
  assume u: "findUserInQuery question = Some u"
    and h: "resultOf (fetchStep env w question u) = Inr d \<and> d \<noteq> ([], [], []) \<and>
        fst (genAI_generateContent env (clock (worldOf (fetchStep env w question u)))
          (SummaryPrompt question u
            (dataContext (JSON_stringify env)
              (addRelativeTimes env (clock (worldOf (fetchStep env w question u))) d)))) =
          Inl message"
  then have "resultOf (answerFromData env (worldOf (fetchStep env w question u)) question u d) =
      Inl message"
    by (simp add: answerFromData_nonempty resultOf_def)
  with u h show "resultOf (handleAIQuery env w question) = catchBlock message"
    by (simp add: handleAIQuery_fetched [of question u env w d] resultOf_def)
qed (simp_all add: catchBlock_def)

theorem handleAIQuery_upstream_failure_witness:
  "findUserInQuery ''What did Mike commit?'' = Some mike \<and>
   resultOf (fetchStep
     (exampleEnv (Inr ''COMMITS'') (Inr []) (Inr []) (Inl ''Request failed with status 403''))
     emptyWorld ''What did Mike commit?'' mike) = Inl ''Request failed with status 403'' \<and>
   \<not> str_includes ''Request failed with status 403'' ''404'' \<and>
   str_includes ''Request failed with status 403'' ''403'' \<and>
   resultOf (handleAIQuery
     (exampleEnv (Inr ''COMMITS'') (Inr []) (Inr []) (Inl ''Request failed with status 403''))
     emptyWorld ''What did Mike commit?'') =
     ''Authentication error: Please check your API credentials in the .env file.''"
proof -
  let ?env = "exampleEnv (Inr ''COMMITS'') (Inr []) (Inr [])
    (Inl ''Request failed with status 403'')"
  have u: "findUserInQuery ''What did Mike commit?'' = Some mike" by code_simp
  have f: "resultOf (fetchStep ?env emptyWorld ''What did Mike commit?'' mike) =
      Inl ''Request failed with status 403''"
    by code_simp
  have n: "\<not> str_includes ''Request failed with status 403'' ''404''" by code_simp
  have y: "str_includes ''Request failed with status 403'' ''403''" by code_simp
  note main = handleAIQuery_upstream_failure
    [OF u, of ?env emptyWorld "''Request failed with status 403''"]
  have "resultOf (handleAIQuery ?env emptyWorld ''What did Mike commit?'') =
      catchBlock ''Request failed with status 403''"
    using main f by blast
  moreover have "catchBlock ''Request failed with status 403'' =
      ''Authentication error: Please check your API credentials in the .env file.''"
    using main n y by blast
  ultimately show ?thesis using u f n y by simp
qed

text \<open>
  The claim as it is written fails where two signals meet: the message of this error
  carries a rate-limit signal, and the answer is the one for a missing repository,
  because the digits 404 occur in it and that test comes first.
\<close>

theorem handleAIQuery_upstream_failure_counterexample:
  "str_includes ''API rate limit exceeded for user ID 14045'' ''rate limit'' \<and>
   resultOf (fetchStep
     (exampleEnv (Inr ''COMMITS'') (Inr []) (Inr [])
        (Inl ''API rate limit exceeded for user ID 14045''))
     emptyWorld ''What did Mike commit?'' mike) =
     Inl ''API rate limit exceeded for user ID 14045'' \<and>
   resultOf (handleAIQuery
     (exampleEnv (Inr ''COMMITS'') (Inr []) (Inr [])
        (Inl ''API rate limit exceeded for user ID 14045''))
     emptyWorld ''What did Mike commit?'') =
     ''Sorry, I couldn't find one or more repositories. The user might not have access to some repos.'' \<and>
   resultOf (handleAIQuery
     (exampleEnv (Inr ''COMMITS'') (Inr []) (Inr [])
        (Inl ''API rate limit exceeded for user ID 14045''))
     emptyWorld ''What did Mike commit?'') \<noteq>
     ''API rate limit exceeded. Please try again in a few minutes.''"
  by code_simp



section \<open>No activity\<close>

text \<open>
  Claim C1, as the source has it. For a known user whose three fetched collections
  are all empty, the answer is the no-activity message and no final prompt is sent:
  the only call to the model during the query is the one that classifies the
  question.
\<close>

theorem handleAIQuery_no_activity:
  "findUserInQuery question = Some u \<Longrightarrow>
   resultOf (fetchStep env w question u) = Inr ([], [], []) \<Longrightarrow>
   resultOf (handleAIQuery env w question) = noActivityMessage u \<and>
   filter isGenerateContent (callsOf (handleAIQuery env w question)) =
     [GenerateContent (IntentPrompt question)] \<and>
   filter isSummaryCall (callsOf (handleAIQuery env w question)) = []"
proof -
  assume u: "findUserInQuery question = Some u"
    and e: "resultOf (fetchStep env w question u) = Inr ([], [], [])"
  have h: "handleAIQuery env w question =
      (noActivityMessage u, worldOf (fetchStep env w question u),
       GenerateContent (IntentPrompt question) # callsOf (fetchStep env w question u))"
    using handleAIQuery_fetched [OF u e]
    by (simp add: answerFromData_empty resultOf_def worldOf_def callsOf_def)
  have up: "\<forall>c\<in>set (callsOf (fetchStep env w question u)). \<not> isGenerateContent c"
    unfolding fetchStep_def using fetchByIntent_calls by blast
  then have f1: "filter isGenerateContent (callsOf (fetchStep env w question u)) = []"
    by (simp add: filter_empty_conv)
  have "\<forall>c\<in>set (callsOf (fetchStep env w question u)). \<not> isSummaryCall c"
  proof
    fix c assume "c \<in> set (callsOf (fetchStep env w question u))"
    with up have "\<not> isGenerateContent c" by blast
    then show "\<not> isSummaryCall c" by (cases c) auto
  qed
  then have f2: "filter isSummaryCall (callsOf (fetchStep env w question u)) = []"
    by (simp add: filter_empty_conv)
  show ?thesis
    using h f1 f2 by (simp add: resultOf_def callsOf_def)
qed

theorem handleAIQuery_no_activity_witness:
  "findUserInQuery ''What is Mike working on?'' = Some mike \<and>
   resultOf (fetchStep (exampleEnv (Inr ''FULL_SUMMARY'') (Inr []) (Inr []) (Inr []))
     emptyWorld ''What is Mike working on?'' mike) = Inr ([], [], []) \<and>
   resultOf (handleAIQuery (exampleEnv (Inr ''FULL_SUMMARY'') (Inr []) (Inr []) (Inr []))
     emptyWorld ''What is Mike working on?'') = noActivityMessage mike \<and>
   filter isGenerateContent
     (callsOf (handleAIQuery (exampleEnv (Inr ''FULL_SUMMARY'') (Inr []) (Inr []) (Inr []))
        emptyWorld ''What is Mike working on?'')) =
     [GenerateContent (IntentPrompt ''What is Mike working on?'')]"
proof -
  let ?env = "exampleEnv (Inr ''FULL_SUMMARY'') (Inr []) (Inr []) (Inr [])"
  have u: "findUserInQuery ''What is Mike working on?'' = Some mike" by code_simp
  have e: "resultOf (fetchStep ?env emptyWorld ''What is Mike working on?'' mike) =
      Inr ([], [], [])"
    by code_simp
  show ?thesis
    using handleAIQuery_no_activity [OF u e] u e by simp
qed

text \<open>
  The claim as it is written fails: the model is the collaborator that classifies the
  question, so it is called once in this query, before anything is fetched.
\<close>

theorem handleAIQuery_no_activity_counterexample:
  "resultOf (fetchStep (exampleEnv (Inr ''FULL_SUMMARY'') (Inr []) (Inr []) (Inr []))
     emptyWorld ''What is Mike working on?'' mike) = Inr ([], [], []) \<and>
   resultOf (handleAIQuery (exampleEnv (Inr ''FULL_SUMMARY'') (Inr []) (Inr []) (Inr []))
     emptyWorld ''What is Mike working on?'') = noActivityMessage mike \<and>
   callsOf (handleAIQuery (exampleEnv (Inr ''FULL_SUMMARY'') (Inr []) (Inr []) (Inr []))
     emptyWorld ''What is Mike working on?'') =
     [GenerateContent (IntentPrompt ''What is Mike working on?''),
      SearchActiveIssues ''Mike Ross'', SearchActivePRs ''mikeross88'',
      SearchRecentCommits ''mikeross88'']"
  by code_simp

section \<open>Scope of the context\<close>

lemma fetchByIntent_COMMITS:
  "fetchByIntent env w u ''COMMITS'' =
     (case fetchCommitsData env w (githubId u) of
        (Inl error, w', cs) \<Rightarrow> (Inl error, w', cs)
      | (Inr githubCommits, w', cs) \<Rightarrow> (Inr ([], [], githubCommits), w', cs))"
  by (simp add: fetchByIntent_def)

lemma fetchStep_COMMITS:
  assumes "resultOf (classifyIntent env w question) = ''COMMITS''"
  shows "(\<exists>message. resultOf (fetchStep env w question u) = Inl message) \<or>
         (\<exists>githubCommits. resultOf (fetchStep env w question u) = Inr ([], [], githubCommits))"
    and "c \<in> set (callsOf (fetchStep env w question u)) \<Longrightarrow> c = SearchRecentCommits (githubId u)"
proof -
  let ?w1 = "worldOf (classifyIntent env w question)"
  obtain r w' cs where f: "fetchCommitsData env ?w1 (githubId u) = (r, w', cs)"
    by (cases "fetchCommitsData env ?w1 (githubId u)") auto
  have s: "fetchStep env w question u =
      (case r of Inl error \<Rightarrow> (Inl error, w', cs)
       | Inr githubCommits \<Rightarrow> (Inr ([], [], githubCommits), w', cs))"
    using assms f by (simp add: fetchStep_def fetchByIntent_COMMITS split: sum.splits)
  show "(\<exists>message. resultOf (fetchStep env w question u) = Inl message) \<or>
         (\<exists>githubCommits. resultOf (fetchStep env w question u) = Inr ([], [], githubCommits))"
    unfolding s by (cases r) (simp_all add: resultOf_def)
  have "callsOf (fetchStep env w question u) = callsOf (fetchCommitsData env ?w1 (githubId u))"
    unfolding s using f by (cases r) (simp_all add: callsOf_def)
  then show "c \<in> set (callsOf (fetchStep env w question u)) \<Longrightarrow>
      c = SearchRecentCommits (githubId u)"
    using fetchCommitsData_calls by simp
qed

text \<open>
  Claim C8. When the question of a known user is classified as COMMITS, neither the
  issue tracker nor the pull requests are asked for, and the context of any final
  prompt consists of the white space of the template and the commits section alone:
  the sections for issues and for pull requests are empty, whatever issues and pull
  requests the connectors or the cache hold for the user.
\<close>

theorem handleAIQuery_COMMITS_scope:
  "findUserInQuery question = Some u \<Longrightarrow>
   resultOf (classifyIntent env w question) = ''COMMITS'' \<Longrightarrow>
   (\<forall>c\<in>set (callsOf (handleAIQuery env w question)).
      c = GenerateContent (IntentPrompt question) \<or> c = SearchRecentCommits (githubId u) \<or>
      (\<exists>githubCommits. githubCommits \<noteq> [] \<and>
         resultOf (fetchStep env w question u) = Inr ([], [], githubCommits) \<and>
         c = GenerateContent (SummaryPrompt question u
           (CHR 0x0A # ''      '' @ CHR 0x0A # ''      '' @ CHR 0x0A # ''      '' @
            ''--- GITHUB DATA (Recent Commits) ---'' @ [CHR 0x0A] @
            JSON_stringify env
              (map (addCommitTime env (clock (worldOf (fetchStep env w question u))))
                 githubCommits) @
            [CHR 0x0A] @ CHR 0x0A # ''    ''))))"
proof
  fix c
  assume u: "findUserInQuery question = Some u"
    and i: "resultOf (classifyIntent env w question) = ''COMMITS''"
    and c: "c \<in> set (callsOf (handleAIQuery env w question))"
  let ?goal = "c = GenerateContent (IntentPrompt question) \<or>
      c = SearchRecentCommits (githubId u) \<or>
      (\<exists>githubCommits. githubCommits \<noteq> [] \<and>
         resultOf (fetchStep env w question u) = Inr ([], [], githubCommits) \<and>
         c = GenerateContent (SummaryPrompt question u
           (CHR 0x0A # ''      '' @ CHR 0x0A # ''      '' @ CHR 0x0A # ''      '' @
            ''--- GITHUB DATA (Recent Commits) ---'' @ [CHR 0x0A] @
            JSON_stringify env
              (map (addCommitTime env (clock (worldOf (fetchStep env w question u))))
                 githubCommits) @
            [CHR 0x0A] @ CHR 0x0A # ''    '')))"
  from fetchStep_COMMITS(1) [OF i, of u]
  consider (failed) message where "resultOf (fetchStep env w question u) = Inl message"
    | (fetched) githubCommits where
        "resultOf (fetchStep env w question u) = Inr ([], [], githubCommits)"
    by blast
  then show ?goal
  proof cases
    case failed
    from c have "c = GenerateContent (IntentPrompt question) \<or>
        c \<in> set (callsOf (fetchStep env w question u))"
      by (simp add: handleAIQuery_fetch_failed [OF u failed] callsOf_def)
    then show ?thesis using fetchStep_COMMITS(2) [OF i] by blast
  next
    case fetched
    let ?w2 = "worldOf (fetchStep env w question u)"
    from c have three: "c = GenerateContent (IntentPrompt question) \<or>
        c \<in> set (callsOf (fetchStep env w question u)) \<or>
        c \<in> set (callsOf (answerFromData env ?w2 question u ([], [], githubCommits)))"
      by (auto simp: handleAIQuery_fetched [OF u fetched] callsOf_def)
    show ?thesis
    proof (cases "githubCommits = []")
      case True
      then have "callsOf (answerFromData env ?w2 question u ([], [], githubCommits)) = []"
        by (simp add: answerFromData_empty callsOf_def)
      with three show ?thesis using fetchStep_COMMITS(2) [OF i] by auto
    next
      case False
      then have ne: "([], [], githubCommits) \<noteq> (([], [], []) :: obj list \<times> obj list \<times> obj list)"
        by simp
      have ctx: "dataContext (JSON_stringify env)
            (addRelativeTimes env (clock ?w2) ([], [], githubCommits)) =
          CHR 0x0A # ''      '' @ CHR 0x0A # ''      '' @ CHR 0x0A # ''      '' @
            ''--- GITHUB DATA (Recent Commits) ---'' @ [CHR 0x0A] @
            JSON_stringify env (map (addCommitTime env (clock ?w2)) githubCommits) @
            [CHR 0x0A] @ CHR 0x0A # ''    ''"
        using False by (simp add: dataContext_def addRelativeTimes_def dataSection_def)
      have "callsOf (answerFromData env ?w2 question u ([], [], githubCommits)) =
          [GenerateContent (SummaryPrompt question u
            (dataContext (JSON_stringify env)
              (addRelativeTimes env (clock ?w2) ([], [], githubCommits))))]"
        by (simp add: answerFromData_nonempty [OF ne] callsOf_def)
      with three ctx fetched False show ?thesis
        using fetchStep_COMMITS(2) [OF i] by auto
    qed
  qed
qed

theorem handleAIQuery_COMMITS_scope_witness:
  "findUserInQuery ''What did Mike commit?'' = Some mike \<and>
   resultOf (classifyIntent
     (exampleEnv (Inr ''COMMITS'') (Inr [exampleIssue]) (Inr [examplePR]) (Inr [exampleCommit]))
     emptyWorld ''What did Mike commit?'') = ''COMMITS'' \<and>
   SearchActiveIssues ''Mike Ross'' \<notin> set (callsOf (handleAIQuery
     (exampleEnv (Inr ''COMMITS'') (Inr [exampleIssue]) (Inr [examplePR]) (Inr [exampleCommit]))
     emptyWorld ''What did Mike commit?'')) \<and>
   SearchActivePRs ''mikeross88'' \<notin> set (callsOf (handleAIQuery
     (exampleEnv (Inr ''COMMITS'') (Inr [exampleIssue]) (Inr [examplePR]) (Inr [exampleCommit]))
     emptyWorld ''What did Mike commit?'')) \<and>
   callsOf (handleAIQuery
     (exampleEnv (Inr ''COMMITS'') (Inr [exampleIssue]) (Inr [examplePR]) (Inr [exampleCommit]))
     emptyWorld ''What did Mike commit?'') =
     [GenerateContent (IntentPrompt ''What did Mike commit?''),
      SearchRecentCommits ''mikeross88'',
      GenerateContent (SummaryPrompt ''What did Mike commit?'' mike
        (CHR 0x0A # ''      '' @ CHR 0x0A # ''      '' @ CHR 0x0A # ''      '' @
         ''--- GITHUB DATA (Recent Commits) ---'' @ [CHR 0x0A] @
         ''{sha;commit;relativeTime;}'' @ [CHR 0x0A] @ CHR 0x0A # ''    ''))]"
proof -
  let ?env = "exampleEnv (Inr ''COMMITS'') (Inr [exampleIssue]) (Inr [examplePR])
    (Inr [exampleCommit])"
  let ?q = "''What did Mike commit?''"
  have u: "findUserInQuery ?q = Some mike" by code_simp
  have i: "resultOf (classifyIntent ?env emptyWorld ?q) = ''COMMITS''" by code_simp
  note main = handleAIQuery_COMMITS_scope [OF u i]
  have n1: "SearchActiveIssues ''Mike Ross'' \<notin> set (callsOf (handleAIQuery ?env emptyWorld ?q))"
    using main by blast
  have n2: "SearchActivePRs ''mikeross88'' \<notin> set (callsOf (handleAIQuery ?env emptyWorld ?q))"
    using main by blast
  have run: "callsOf (handleAIQuery ?env emptyWorld ?q) =
     [GenerateContent (IntentPrompt ?q),
      SearchRecentCommits ''mikeross88'',
      GenerateContent (SummaryPrompt ?q mike
        (CHR 0x0A # ''      '' @ CHR 0x0A # ''      '' @ CHR 0x0A # ''      '' @
         ''--- GITHUB DATA (Recent Commits) ---'' @ [CHR 0x0A] @
         ''{sha;commit;relativeTime;}'' @ [CHR 0x0A] @ CHR 0x0A # ''    ''))]"
    by code_simp
  show ?thesis using u i n1 n2 run by blast
qed



section \<open>Cached fetches\<close>

lemma world_eta [simp]: "\<lparr>dataCache = dataCache w, clock = clock w\<rparr> = w"
  by simp

lemma fetchWithCache_hit:
  assumes "dataCache w (keyPrefix @ ident) = Some e"
    and "clock w - timestamp e \<le> CACHE_TTL"
  shows "fetchWithCache keyPrefix search mkCall w ident = (Inr (data e), w, [])"
  using assms by (simp add: fetchWithCache_def getCachedData_def Let_def)

lemma fetchWithCache_entry:
  assumes "resultOf (fetchWithCache keyPrefix search mkCall w ident) = Inr d"
  shows "cacheHas (dataCache (worldOf (fetchWithCache keyPrefix search mkCall w ident)))
           (keyPrefix @ ident) d"
proof (cases "getCachedData (clock w) (keyPrefix @ ident) (dataCache w)")
  case (Pair hit c)
  show ?thesis
  proof (cases hit)
    case (Some cached)
    with Pair assms have d: "cached = d"
      by (simp add: fetchWithCache_def Let_def resultOf_def)
    from Pair Some have "cacheHas c (keyPrefix @ ident) cached"
      by (auto simp: getCachedData_def cacheHas_def Let_def split: option.splits if_splits)
    with Pair Some d show ?thesis
      by (simp add: fetchWithCache_def Let_def worldOf_def)
  next
    case None
    obtain r latency where s: "search (clock w) ident = (r, latency)"
      by (cases "search (clock w) ident") auto
    with Pair None assms have "r = Inr d"
      by (cases r) (simp_all add: fetchWithCache_def Let_def resultOf_def)
    with Pair None s show ?thesis
      by (simp add: fetchWithCache_def Let_def worldOf_def cacheHas_def setCachedData_def)
  qed
qed

lemma fetchWithCache_other_keys:
  assumes "k \<noteq> keyPrefix @ ident"
  shows "dataCache (worldOf (fetchWithCache keyPrefix search mkCall w ident)) k = dataCache w k"
proof (cases "getCachedData (clock w) (keyPrefix @ ident) (dataCache w)")
  case (Pair hit c)
  have c: "c k = dataCache w k"
    using Pair assms
    by (auto simp: getCachedData_def Let_def split: option.splits if_splits)
  show ?thesis
  proof (cases hit)
    case (Some cached)
    with Pair c show ?thesis by (simp add: fetchWithCache_def Let_def worldOf_def)
  next
    case None
    obtain r latency where s: "search (clock w) ident = (r, latency)"
      by (cases "search (clock w) ident") auto
    with Pair None c assms show ?thesis
      by (cases r) (simp_all add: fetchWithCache_def Let_def worldOf_def setCachedData_def)
  qed
qed

text \<open>The raw result of the connector is what a miss stores.\<close>

lemma fetchWithCache_stores_result:
  assumes "dataCache w (keyPrefix @ ident) = None"
    and "search (clock w) ident = (Inr d, latency)"
  shows "dataCache (worldOf (fetchWithCache keyPrefix search mkCall w ident)) (keyPrefix @ ident) =
     Some \<lparr>data = d, timestamp = clock w + int latency\<rparr>"
  using assms
  by (simp add: fetchWithCache_def getCachedData_def Let_def worldOf_def setCachedData_def)

lemma promiseAll_Inr:
  "promiseAll (r1, t1) (r2, t2) (r3, t3) = Inr d \<longleftrightarrow>
     (\<exists>a b c. r1 = Inr a \<and> r2 = Inr b \<and> r3 = Inr c \<and> d = (a, b, c))"
  by (cases r1; cases r2; cases r3) (auto simp: promiseAll_def)

lemma answerFromData_cache [simp]:
  "dataCache (worldOf (answerFromData env w question u d)) = dataCache w"
  by (cases d) (simp add: answerFromData_def worldOf_def Let_def split: prod.splits)



lemma cacheHas_hit:
  assumes "cacheHas (dataCache w) (keyPrefix @ ident) d"
    and "freshAt (clock w) (dataCache w) [keyPrefix @ ident]"
  shows "fetchWithCache keyPrefix search mkCall w ident = (Inr d, w, [])"
proof -
  from assms(1) obtain e where e: "dataCache w (keyPrefix @ ident) = Some e" "data e = d"
    by (auto simp: cacheHas_def split: option.splits)
  with assms(2) have "clock w - timestamp e \<le> CACHE_TTL"
    by (simp add: freshAt_def)
  with e show ?thesis using fetchWithCache_hit [of w keyPrefix ident e search mkCall] by simp
qed

lemma fetchAll_unfold:
  "fetchAll env w u =
     (promiseAll
        (resultOf (fetchJiraData env w (jiraId u)),
         clock (worldOf (fetchJiraData env w (jiraId u))))
        (resultOf (fetchPRsData env
           ((worldOf (fetchJiraData env w (jiraId u)))\<lparr>clock := clock w\<rparr>) (githubId u)),
         clock (worldOf (fetchPRsData env
           ((worldOf (fetchJiraData env w (jiraId u)))\<lparr>clock := clock w\<rparr>) (githubId u))))
        (resultOf (fetchCommitsData env
           ((worldOf (fetchPRsData env
              ((worldOf (fetchJiraData env w (jiraId u)))\<lparr>clock := clock w\<rparr>) (githubId u)))
            \<lparr>clock := clock w\<rparr>) (githubId u)),
         clock (worldOf (fetchCommitsData env
           ((worldOf (fetchPRsData env
              ((worldOf (fetchJiraData env w (jiraId u)))\<lparr>clock := clock w\<rparr>) (githubId u)))
            \<lparr>clock := clock w\<rparr>) (githubId u)))),
      (worldOf (fetchCommitsData env
           ((worldOf (fetchPRsData env
              ((worldOf (fetchJiraData env w (jiraId u)))\<lparr>clock := clock w\<rparr>) (githubId u)))
            \<lparr>clock := clock w\<rparr>) (githubId u)))
        \<lparr>clock := max (clock (worldOf (fetchJiraData env w (jiraId u))))
           (max (clock (worldOf (fetchPRsData env
              ((worldOf (fetchJiraData env w (jiraId u)))\<lparr>clock := clock w\<rparr>) (githubId u))))
            (clock (worldOf (fetchCommitsData env
           ((worldOf (fetchPRsData env
              ((worldOf (fetchJiraData env w (jiraId u)))\<lparr>clock := clock w\<rparr>) (githubId u)))
            \<lparr>clock := clock w\<rparr>) (githubId u)))))\<rparr>,
      callsOf (fetchAll env w u))"
  by (simp add: fetchAll_def resultOf_def worldOf_def callsOf_def Let_def split: prod.splits)

lemma fetchAll_holds:
  assumes "resultOf (fetchAll env w u) = Inr d"
  shows "cacheHas (dataCache (worldOf (fetchAll env w u))) (''jira_'' @ jiraId u) (fst d) \<and>
         cacheHas (dataCache (worldOf (fetchAll env w u))) (''prs_'' @ githubId u) (fst (snd d)) \<and>
         cacheHas (dataCache (worldOf (fetchAll env w u))) (''commits_'' @ githubId u)
           (snd (snd d))"
proof -
  define f1 where "f1 = fetchJiraData env w (jiraId u)"
  define f2 where "f2 = fetchPRsData env ((worldOf f1)\<lparr>clock := clock w\<rparr>) (githubId u)"
  define f3 where "f3 = fetchCommitsData env ((worldOf f2)\<lparr>clock := clock w\<rparr>) (githubId u)"
  have res: "resultOf (fetchAll env w u) =
      promiseAll (resultOf f1, clock (worldOf f1)) (resultOf f2, clock (worldOf f2))
        (resultOf f3, clock (worldOf f3))"
    unfolding f1_def f2_def f3_def
    by (subst fetchAll_unfold) (simp add: resultOf_def)
  have wld: "dataCache (worldOf (fetchAll env w u)) = dataCache (worldOf f3)"
    unfolding f1_def f2_def f3_def
    by (subst fetchAll_unfold) (simp add: worldOf_def)
  from assms res obtain a b c where abc: "resultOf f1 = Inr a" "resultOf f2 = Inr b"
      "resultOf f3 = Inr c" "d = (a, b, c)"
    using promiseAll_Inr by metis
  have h1: "cacheHas (dataCache (worldOf f1)) (''jira_'' @ jiraId u) a"
    using abc(1) unfolding f1_def fetchJiraData_def by (rule fetchWithCache_entry)
  have h2: "cacheHas (dataCache (worldOf f2)) (''prs_'' @ githubId u) b"
    using abc(2) unfolding f2_def fetchPRsData_def by (rule fetchWithCache_entry)
  have h3: "cacheHas (dataCache (worldOf f3)) (''commits_'' @ githubId u) c"
    using abc(3) unfolding f3_def fetchCommitsData_def by (rule fetchWithCache_entry)
  have k12: "dataCache (worldOf f2) (''jira_'' @ jiraId u) =
      dataCache (worldOf f1) (''jira_'' @ jiraId u)"
    unfolding f2_def fetchPRsData_def
    by (subst fetchWithCache_other_keys) simp_all
  have k13: "dataCache (worldOf f3) (''jira_'' @ jiraId u) =
      dataCache (worldOf f2) (''jira_'' @ jiraId u)"
    unfolding f3_def fetchCommitsData_def
    by (subst fetchWithCache_other_keys) simp_all
  have k23: "dataCache (worldOf f3) (''prs_'' @ githubId u) =
      dataCache (worldOf f2) (''prs_'' @ githubId u)"
    unfolding f3_def fetchCommitsData_def
    by (subst fetchWithCache_other_keys) simp_all
  have "cacheHas (dataCache (worldOf f3)) (''jira_'' @ jiraId u) a"
    using h1 k12 k13 by (simp add: cacheHas_def)
  moreover have "cacheHas (dataCache (worldOf f3)) (''prs_'' @ githubId u) b"
    using h2 k23 by (simp add: cacheHas_def)
  ultimately show ?thesis using h3 abc(4) wld by simp
qed

lemma fetchByIntent_holds:
  assumes "resultOf (fetchByIntent env w u intent) = Inr d"
  shows "cacheHolds intent u d (dataCache (worldOf (fetchByIntent env w u intent)))"
proof -
  obtain jiraIssues githubPRs githubCommits where d: "d = (jiraIssues, githubPRs, githubCommits)"
    by (cases d) auto
  consider (jira) "intent = ''JIRA''" | (commits) "intent \<noteq> ''JIRA''" "intent = ''COMMITS''"
    | (prs) "intent \<noteq> ''JIRA''" "intent \<noteq> ''COMMITS''" "intent = ''PRS''"
    | (full) "intent \<noteq> ''JIRA''" "intent \<noteq> ''COMMITS''" "intent \<noteq> ''PRS''"
    by blast
  then show ?thesis
  proof cases
    case jira
    obtain r w' cs where f: "fetchJiraData env w (jiraId u) = (r, w', cs)"
      by (cases "fetchJiraData env w (jiraId u)") auto
    with assms jira d have r: "r = Inr jiraIssues" "githubPRs = []" "githubCommits = []"
      by (cases r; simp add: fetchByIntent_def resultOf_def)+
    have "cacheHas (dataCache (worldOf (fetchJiraData env w (jiraId u))))
        (''jira_'' @ jiraId u) jiraIssues"
      unfolding fetchJiraData_def
      using f r(1) by (intro fetchWithCache_entry) (simp add: fetchJiraData_def resultOf_def)
    then show ?thesis
      using jira d f r by (simp add: cacheHolds_def fetchByIntent_def worldOf_def)
  next
    case commits
    obtain r w' cs where f: "fetchCommitsData env w (githubId u) = (r, w', cs)"
      by (cases "fetchCommitsData env w (githubId u)") auto
    with assms commits d have r: "r = Inr githubCommits" "githubPRs = []" "jiraIssues = []"
      by (cases r; simp add: fetchByIntent_def resultOf_def)+
    have "cacheHas (dataCache (worldOf (fetchCommitsData env w (githubId u))))
        (''commits_'' @ githubId u) githubCommits"
      unfolding fetchCommitsData_def
      using f r(1) by (intro fetchWithCache_entry) (simp add: fetchCommitsData_def resultOf_def)
    then show ?thesis
      using commits d f r by (simp add: cacheHolds_def fetchByIntent_def worldOf_def)
  next
    case prs
    obtain r w' cs where f: "fetchPRsData env w (githubId u) = (r, w', cs)"
      by (cases "fetchPRsData env w (githubId u)") auto
    with assms prs d have r: "r = Inr githubPRs" "githubCommits = []" "jiraIssues = []"
      by (cases r; simp add: fetchByIntent_def resultOf_def)+
    have "cacheHas (dataCache (worldOf (fetchPRsData env w (githubId u))))
        (''prs_'' @ githubId u) githubPRs"
      unfolding fetchPRsData_def
      using f r(1) by (intro fetchWithCache_entry) (simp add: fetchPRsData_def resultOf_def)
    then show ?thesis
      using prs d f r by (simp add: cacheHolds_def fetchByIntent_def worldOf_def)
  next
    case full
    then have eq: "fetchByIntent env w u intent = fetchAll env w u"
      by (simp add: fetchByIntent_def)
    with assms have "resultOf (fetchAll env w u) = Inr d" by simp
    from fetchAll_holds [OF this] show ?thesis
      using full d eq by (simp add: cacheHolds_def)
  qed
qed

lemma fetchByIntent_all_hits:
  assumes "cacheHolds intent u d (dataCache w)"
    and "freshAt (clock w) (dataCache w) (neededKeys intent u)"
  shows "fetchByIntent env w u intent = (Inr d, w, [])"
proof -
  obtain jiraIssues githubPRs githubCommits where d: "d = (jiraIssues, githubPRs, githubCommits)"
    by (cases d) auto
  consider (jira) "intent = ''JIRA''" | (commits) "intent \<noteq> ''JIRA''" "intent = ''COMMITS''"
    | (prs) "intent \<noteq> ''JIRA''" "intent \<noteq> ''COMMITS''" "intent = ''PRS''"
    | (full) "intent \<noteq> ''JIRA''" "intent \<noteq> ''COMMITS''" "intent \<noteq> ''PRS''"
    by blast
  then show ?thesis
  proof cases
    case jira
    with assms d have "cacheHas (dataCache w) (''jira_'' @ jiraId u) jiraIssues"
        "githubPRs = []" "githubCommits = []"
        "freshAt (clock w) (dataCache w) [''jira_'' @ jiraId u]"
      by (simp_all add: cacheHolds_def neededKeys_def)
    then show ?thesis
      using jira d by (simp add: fetchByIntent_def fetchJiraData_def cacheHas_hit)
  next
    case commits
    with assms d have "cacheHas (dataCache w) (''commits_'' @ githubId u) githubCommits"
        "githubPRs = []" "jiraIssues = []"
        "freshAt (clock w) (dataCache w) [''commits_'' @ githubId u]"
      by (simp_all add: cacheHolds_def neededKeys_def)
    then show ?thesis
      using commits d by (simp add: fetchByIntent_def fetchCommitsData_def cacheHas_hit)
  next
    case prs
    with assms d have "cacheHas (dataCache w) (''prs_'' @ githubId u) githubPRs"
        "githubCommits = []" "jiraIssues = []"
        "freshAt (clock w) (dataCache w) [''prs_'' @ githubId u]"
      by (simp_all add: cacheHolds_def neededKeys_def)
    then show ?thesis
      using prs d by (simp add: fetchByIntent_def fetchPRsData_def cacheHas_hit)
  next
    case full
    with assms d have h: "cacheHas (dataCache w) (''jira_'' @ jiraId u) jiraIssues"
        "cacheHas (dataCache w) (''prs_'' @ githubId u) githubPRs"
        "cacheHas (dataCache w) (''commits_'' @ githubId u) githubCommits"
      by (simp_all add: cacheHolds_def)
    from full assms(2) have f: "freshAt (clock w) (dataCache w) [''jira_'' @ jiraId u]"
        "freshAt (clock w) (dataCache w) [''prs_'' @ githubId u]"
        "freshAt (clock w) (dataCache w) [''commits_'' @ githubId u]"
      by (simp_all add: neededKeys_def cacheKeys_def freshAt_def)
    have j: "fetchJiraData env w (jiraId u) = (Inr jiraIssues, w, [])"
      unfolding fetchJiraData_def using h(1) f(1) by (rule cacheHas_hit)
    have p: "fetchPRsData env w (githubId u) = (Inr githubPRs, w, [])"
      unfolding fetchPRsData_def using h(2) f(2) by (rule cacheHas_hit)
    have c: "fetchCommitsData env w (githubId u) = (Inr githubCommits, w, [])"
      unfolding fetchCommitsData_def using h(3) f(3) by (rule cacheHas_hit)
    have "fetchAll env w u = (Inr d, w, [])"
      by (simp add: fetchAll_def Let_def j p c promiseAll_def d)
    with full show ?thesis by (simp add: fetchByIntent_def)
  qed
qed



section \<open>Repeated questions\<close>

text \<open>
  Claim C6, as the source has it. Take two invocations whose questions resolve to
  the same user and are classified with the same intent. Let the fetches of the first
  have succeeded with data \<open>d\<close>, let the second start from the cache the first left,
  and let no entry under the keys of the intent be older than the TTL when the second
  reads the cache. Then the second invocation calls no connector and works on the
  same data \<open>d\<close>, since the keys are built from the kind and the user's id and
  not from the question; and when \<open>d\<close> is not empty, it sends the final prompt to
  the model.
\<close>

theorem handleAIQuery_second_invocation:
  "findUserInQuery question = Some u \<Longrightarrow> findUserInQuery question' = Some u \<Longrightarrow>
   resultOf (classifyIntent env w' question') = resultOf (classifyIntent env w question) \<Longrightarrow>
   resultOf (fetchStep env w question u) = Inr d \<Longrightarrow>
   dataCache w' = dataCache (worldOf (handleAIQuery env w question)) \<Longrightarrow>
   freshAt (clock (worldOf (classifyIntent env w' question'))) (dataCache w')
     (neededKeys (resultOf (classifyIntent env w' question')) u) \<Longrightarrow>
   connectorCalls (callsOf (handleAIQuery env w' question')) = [] \<and>
   resultOf (fetchStep env w' question' u) = Inr d \<and>
   (d \<noteq> ([], [], []) \<longrightarrow>
      filter isSummaryCall (callsOf (handleAIQuery env w' question')) =
        [GenerateContent (SummaryPrompt question' u
           (dataContext (JSON_stringify env)
              (addRelativeTimes env (clock (worldOf (classifyIntent env w' question'))) d)))])"
proof -
  assume u: "findUserInQuery question = Some u" and u': "findUserInQuery question' = Some u"
    and same: "resultOf (classifyIntent env w' question') =
      resultOf (classifyIntent env w question)"
    and ok: "resultOf (fetchStep env w question u) = Inr d"
    and cache: "dataCache w' = dataCache (worldOf (handleAIQuery env w question))"
    and fresh: "freshAt (clock (worldOf (classifyIntent env w' question'))) (dataCache w')
      (neededKeys (resultOf (classifyIntent env w' question')) u)"
  let ?intent = "resultOf (classifyIntent env w question)"
  let ?w1' = "worldOf (classifyIntent env w' question')"
  have "dataCache (worldOf (handleAIQuery env w question)) =
      dataCache (worldOf (fetchStep env w question u))"
    by (simp add: handleAIQuery_fetched [OF u ok] worldOf_def [of "(a, b, c)" for a b c])
  with cache have c': "dataCache ?w1' = dataCache (worldOf (fetchStep env w question u))"
    by simp
  have "cacheHolds ?intent u d (dataCache (worldOf (fetchStep env w question u)))"
    using ok unfolding fetchStep_def by (rule fetchByIntent_holds)
  with c' have holds: "cacheHolds ?intent u d (dataCache ?w1')" by simp
  have fresh': "freshAt (clock ?w1') (dataCache ?w1') (neededKeys ?intent u)"
    using fresh same by simp
  have step: "fetchStep env w' question' u = (Inr d, ?w1', [])"
    unfolding fetchStep_def same using holds fresh' by (rule fetchByIntent_all_hits)
  then have r: "resultOf (fetchStep env w' question' u) = Inr d"
    and wf: "worldOf (fetchStep env w' question' u) = ?w1'"
    and cf: "callsOf (fetchStep env w' question' u) = []"
    by (simp_all add: resultOf_def worldOf_def callsOf_def)
  have calls: "callsOf (handleAIQuery env w' question') =
      GenerateContent (IntentPrompt question') #
      callsOf (answerFromData env ?w1' question' u d)"
    by (simp add: handleAIQuery_fetched [OF u' r] wf cf callsOf_def [of "(a, b, c)" for a b c])
  show ?thesis
  proof (cases "d = ([], [], [])")
    case True
    then show ?thesis
      using calls r by (simp add: answerFromData_empty callsOf_def connectorCalls_def)
  next
    case False
    then show ?thesis
      using calls r
      by (simp add: answerFromData_nonempty [OF False] callsOf_def connectorCalls_def)
  qed
qed



theorem handleAIQuery_second_invocation_witness:
  "findUserInQuery ''What JIRA tickets is Mike working on?'' = Some mike \<and>
   findUserInQuery ''Show me the issues of MIKE'' = Some mike \<and>
   resultOf (classifyIntent (exampleEnv (Inr ''JIRA'') (Inr [exampleIssue]) (Inr []) (Inr []))
      ((worldOf (handleAIQuery
          (exampleEnv (Inr ''JIRA'') (Inr [exampleIssue]) (Inr []) (Inr []))
          emptyWorld ''What JIRA tickets is Mike working on?''))\<lparr>clock := 1200000\<rparr>)
      ''Show me the issues of MIKE'') =
     resultOf (classifyIntent (exampleEnv (Inr ''JIRA'') (Inr [exampleIssue]) (Inr []) (Inr []))
       emptyWorld ''What JIRA tickets is Mike working on?'') \<and>
   resultOf (fetchStep (exampleEnv (Inr ''JIRA'') (Inr [exampleIssue]) (Inr []) (Inr []))
     emptyWorld ''What JIRA tickets is Mike working on?'' mike) = Inr ([exampleIssue], [], []) \<and>
   freshAt 1200120
     (dataCache (worldOf (handleAIQuery
        (exampleEnv (Inr ''JIRA'') (Inr [exampleIssue]) (Inr []) (Inr []))
        emptyWorld ''What JIRA tickets is Mike working on?'')))
     [''jira_Mike Ross''] \<and>
   connectorCalls (callsOf (handleAIQuery
     (exampleEnv (Inr ''JIRA'') (Inr [exampleIssue]) (Inr []) (Inr []))
     ((worldOf (handleAIQuery
         (exampleEnv (Inr ''JIRA'') (Inr [exampleIssue]) (Inr []) (Inr []))
         emptyWorld ''What JIRA tickets is Mike working on?''))\<lparr>clock := 1200000\<rparr>)
     ''Show me the issues of MIKE'')) = [] \<and>
   filter isSummaryCall (callsOf (handleAIQuery
     (exampleEnv (Inr ''JIRA'') (Inr [exampleIssue]) (Inr []) (Inr []))
     ((worldOf (handleAIQuery
         (exampleEnv (Inr ''JIRA'') (Inr [exampleIssue]) (Inr []) (Inr []))
         emptyWorld ''What JIRA tickets is Mike working on?''))\<lparr>clock := 1200000\<rparr>)
     ''Show me the issues of MIKE'')) =
     [GenerateContent (SummaryPrompt ''Show me the issues of MIKE'' mike
        (CHR 0x0A # ''      '' @ ''--- JIRA DATA (Active Issues) ---'' @ [CHR 0x0A] @
         ''{key;lastUpdated;relativeTime;}'' @ [CHR 0x0A] @
         CHR 0x0A # ''      '' @ CHR 0x0A # ''      '' @ CHR 0x0A # ''    ''))]"
proof -
  let ?env = "exampleEnv (Inr ''JIRA'') (Inr [exampleIssue]) (Inr []) (Inr [])"
  let ?q = "''What JIRA tickets is Mike working on?''"
  let ?q' = "''Show me the issues of MIKE''"
  let ?w1 = "worldOf (handleAIQuery ?env emptyWorld ?q)"
  let ?w' = "?w1\<lparr>clock := 1200000\<rparr>"
  have u: "findUserInQuery ?q = Some mike" by code_simp
  have u': "findUserInQuery ?q' = Some mike" by code_simp
  have i1: "resultOf (classifyIntent ?env emptyWorld ?q) = ''JIRA''" by code_simp
  have i2: "resultOf (classifyIntent ?env ?w' ?q') = ''JIRA''"
    by (simp add: classifyIntent_def exampleEnv_def resultOf_def) code_simp
  have t2: "clock (worldOf (classifyIntent ?env ?w' ?q')) = 1200120"
    by (simp add: classifyIntent_def exampleEnv_def worldOf_def Let_def)
  have same: "resultOf (classifyIntent ?env ?w' ?q') = resultOf (classifyIntent ?env emptyWorld ?q)"
    using i1 i2 by simp
  have ok: "resultOf (fetchStep ?env emptyWorld ?q mike) = Inr ([exampleIssue], [], [])"
    by code_simp
  have cache: "dataCache ?w' = dataCache ?w1" by simp
  have fr: "freshAt 1200120 (dataCache ?w1) [''jira_Mike Ross'']" by code_simp
  have keys: "neededKeys ''JIRA'' mike = [''jira_Mike Ross'']"
    by (simp add: neededKeys_def mike_def)
  have fresh: "freshAt (clock (worldOf (classifyIntent ?env ?w' ?q'))) (dataCache ?w')
      (neededKeys (resultOf (classifyIntent ?env ?w' ?q')) mike)"
    using fr by (simp only: t2 i2 keys cache)
  have ne: "([exampleIssue], [], []) \<noteq> (([], [], []) :: obj list \<times> obj list \<times> obj list)"
    by simp
  have ctx: "dataContext (JSON_stringify ?env)
        (addRelativeTimes ?env 1200120 ([exampleIssue], [], [])) =
      CHR 0x0A # ''      '' @ ''--- JIRA DATA (Active Issues) ---'' @ [CHR 0x0A] @
         ''{key;lastUpdated;relativeTime;}'' @ [CHR 0x0A] @
         CHR 0x0A # ''      '' @ CHR 0x0A # ''      '' @ CHR 0x0A # ''    ''"
    by code_simp
  note main = handleAIQuery_second_invocation [OF u u' same ok cache fresh]
  have r1: "connectorCalls (callsOf (handleAIQuery ?env ?w' ?q')) = []"
    using main by blast
  have "filter isSummaryCall (callsOf (handleAIQuery ?env ?w' ?q')) =
      [GenerateContent (SummaryPrompt ?q' mike
         (dataContext (JSON_stringify ?env)
            (addRelativeTimes ?env (clock (worldOf (classifyIntent ?env ?w' ?q')))
               ([exampleIssue], [], []))))]"
    using main ne by blast
  then have r2: "filter isSummaryCall (callsOf (handleAIQuery ?env ?w' ?q')) =
      [GenerateContent (SummaryPrompt ?q' mike
        (CHR 0x0A # ''      '' @ ''--- JIRA DATA (Active Issues) ---'' @ [CHR 0x0A] @
         ''{key;lastUpdated;relativeTime;}'' @ [CHR 0x0A] @
         CHR 0x0A # ''      '' @ CHR 0x0A # ''      '' @ CHR 0x0A # ''    ''))]"
    by (simp only: t2 ctx)
  show ?thesis using u u' same ok fr r1 r2 by blast
qed

text \<open>
  The claim as it is written fails in three ways. A first invocation whose fetch
  failed leaves nothing in the cache, and the second calls the connector again. When
  the cached data is empty, the second invocation sends no final prompt. And an entry
  that the first invocation only read can expire before the second, although the two
  invocations are 150 seconds apart.
\<close>

theorem handleAIQuery_second_invocation_counterexample:
  "callsOf (handleAIQuery (exampleEnv (Inr ''JIRA'') (Inl ''socket hang up'') (Inr []) (Inr []))
     (worldOf (handleAIQuery
        (exampleEnv (Inr ''JIRA'') (Inl ''socket hang up'') (Inr []) (Inr []))
        emptyWorld ''What JIRA tickets is Mike working on?''))
     ''What JIRA tickets is Mike working on?'') =
     [GenerateContent (IntentPrompt ''What JIRA tickets is Mike working on?''),
      SearchActiveIssues ''Mike Ross''] \<and>
   callsOf (handleAIQuery (exampleEnv (Inr ''JIRA'') (Inr []) (Inr []) (Inr []))
     (worldOf (handleAIQuery (exampleEnv (Inr ''JIRA'') (Inr []) (Inr []) (Inr []))
        emptyWorld ''What JIRA tickets is Mike working on?''))
     ''What JIRA tickets is Mike working on?'') =
     [GenerateContent (IntentPrompt ''What JIRA tickets is Mike working on?'')] \<and>
   connectorCalls (callsOf (handleAIQuery
     (exampleEnv (Inr ''JIRA'') (Inr [exampleIssue]) (Inr []) (Inr []))
     warmWorld ''What JIRA tickets is Mike working on?'')) = [] \<and>
   callsOf (handleAIQuery (exampleEnv (Inr ''JIRA'') (Inr [exampleIssue]) (Inr []) (Inr []))
     ((worldOf (handleAIQuery
         (exampleEnv (Inr ''JIRA'') (Inr [exampleIssue]) (Inr []) (Inr []))
         warmWorld ''What JIRA tickets is Mike working on?''))\<lparr>clock := 1150000\<rparr>)
     ''What JIRA tickets is Mike working on?'') =
     [GenerateContent (IntentPrompt ''What JIRA tickets is Mike working on?''),
      SearchActiveIssues ''Mike Ross'',
      GenerateContent (SummaryPrompt ''What JIRA tickets is Mike working on?'' mike
        (CHR 0x0A # ''      '' @ ''--- JIRA DATA (Active Issues) ---'' @ [CHR 0x0A] @
         ''{key;lastUpdated;relativeTime;}'' @ [CHR 0x0A] @
         CHR 0x0A # ''      '' @ CHR 0x0A # ''      '' @ CHR 0x0A # ''    ''))]"
  by code_simp

section \<open>Relative times\<close>

lemma getProp_setProp: "getProp (setProp name v ob) name = Some v"
proof (cases "name \<in> fst ` set ob")
  case True
  then have "map_of (map (\<lambda>(k, x). if k = name then (k, v) else (k, x)) ob) name = Some v"
    by (induction ob) auto
  with True show ?thesis by (simp add: getProp_def setProp_def)
next
  case False
  then have "map_of ob name = None" by (simp add: map_of_eq_None_iff)
  with False show ?thesis by (simp add: getProp_def setProp_def map_add_def)
qed

text \<open>Issues and commits gain the field, computed at the time of assembly.\<close>

lemma addIssueTime_relativeTime:
  "getProp (addIssueTime env now issue) ''relativeTime'' =
     Some (JStr (getRelativeTime env now (getProp issue ''lastUpdated'')))"
  by (simp add: addIssueTime_def getProp_setProp)

lemma addCommitTime_relativeTime:
  "getProp (addCommitTime env now commit) ''relativeTime'' \<noteq> None"
  by (simp add: addCommitTime_def Let_def getProp_setProp)

text \<open>Pull requests are handed on as they were fetched.\<close>

lemma addRelativeTimes_pull_requests:
  "fst (snd (addRelativeTimes env now (jiraIssues, githubPRs, githubCommits))) = githubPRs"
  by (simp add: addRelativeTimes_def)

text \<open>
  Claim C2 at a concrete input. A pull request fetched for the user has no
  \<open>relativeTime\<close>, and step 5 leaves it so, while the issue and the commit beside it
  gain the field; for the intent PRS the final prompt holds the record as fetched.
\<close>

theorem addRelativeTimes_example:
  "getProp examplePR ''relativeTime'' = None \<and>
   addRelativeTimes (exampleEnv (Inr ''PRS'') (Inr []) (Inr [examplePR]) (Inr [])) 1000000
     ([exampleIssue], [examplePR], [exampleCommit]) =
     ([exampleIssue @ [(''relativeTime'', JStr ''10 minutes ago'')]],
      [examplePR],
      [exampleCommit @ [(''relativeTime'', JStr ''10 minutes ago'')]]) \<and>
   callsOf (handleAIQuery (exampleEnv (Inr ''PRS'') (Inr []) (Inr [examplePR]) (Inr []))
     emptyWorld ''Show me the pull requests of Mike'') =
     [GenerateContent (IntentPrompt ''Show me the pull requests of Mike''),
      SearchActivePRs ''mikeross88'',
      GenerateContent (SummaryPrompt ''Show me the pull requests of Mike'' mike
        (CHR 0x0A # ''      '' @ CHR 0x0A # ''      '' @
         ''--- GITHUB DATA (Active Pull Requests) ---'' @ [CHR 0x0A] @
         ''{title;created_at;user;}'' @ [CHR 0x0A] @
         CHR 0x0A # ''      '' @ CHR 0x0A # ''    ''))]"
  by code_simp


end
